theory Spec2Isabelle
  imports Main
begin

text \<open>
  HomeyScript stores scripts in a registry, runs them in a sandbox with a fixed set of
  injected capabilities, and keeps a registry of flow tokens. The repository holds the
  application class in two versions: app.js, and a second copy that differs in the
  migration, the autocomplete listener, the arguments of \<open>runScript\<close>, its \<open>catch\<close> block
  and the update methods. A definition named as in the source follows app.js, or is the
  same in both; where the two versions differ under one name, the definition that follows
  the second copy carries the suffix \<open>_part0\<close>. \<open>createScriptV2\<close> and \<open>updateScriptV2\<close> exist in
  the second copy only.
\<close>

section \<open>JavaScript values and objects\<close>

text \<open>
  The values the modelled code handles. Numbers are restricted to the integers (the code
  does no arithmetic on them apart from reading a clock); a \<open>Date\<close> carries its time value
  in milliseconds, \<open>None\<close> being the invalid date (time value NaN). An object is a finite
  map from the names of its own properties to values; every such object inherits from
  \<open>Object.prototype\<close>. \<open>JBuiltin k\<close> is the member \<open>k\<close> of \<open>Object.prototype\<close>, a function of
  the host, and for \<open>__proto__\<close> it is \<open>Object.prototype\<close> itself: what a dictionary lookup
  finds under such a name when the dictionary has no property of its own there. Other
  functions, symbols and cyclic objects are outside the model.
\<close>

datatype jsval =
    JUndefined
  | JNull
  | JBool bool
  | JNum int
  | JStr string
  | JDate "int option"
  | JObj "string \<Rightarrow> jsval option"
  | JBuiltin string

type_synonym obj = "string \<Rightarrow> jsval option"

text \<open>Exceptions: every \<open>throw\<close> and every rejected promise of the source is one of these.\<close>

datatype js_error =
    ScriptNotFound          \<comment> \<open>\<open>new Error('Script Not Found')\<close>\<close>
  | JsTypeError string      \<comment> \<open>raised by the engine; the text names the failing expression\<close>
  | JsError string jsval    \<comment> \<open>an \<open>Error\<close> object: its \<open>message\<close> and its \<open>stack\<close> property\<close>
  | Rejection jsval         \<comment> \<open>a value thrown or rejected by a host collaborator\<close>

text \<open>\<open>o.k\<close> on an object: the property, or \<open>undefined\<close> when it is absent.\<close>

definition obj_get :: "obj \<Rightarrow> string \<Rightarrow> jsval" where
  "obj_get ps k = (case ps k of None \<Rightarrow> JUndefined | Some v \<Rightarrow> v)"

text \<open>\<open>x == null\<close>: true of \<open>null\<close> and \<open>undefined\<close> only.\<close>

definition is_nullish :: "jsval \<Rightarrow> bool" where
  "is_nullish v = (v = JUndefined \<or> v = JNull)"

fun truthy :: "jsval \<Rightarrow> bool" where
  "truthy JUndefined = False"
| "truthy JNull = False"
| "truthy (JBool b) = b"
| "truthy (JNum n) = (n \<noteq> 0)"
| "truthy (JStr s) = (s \<noteq> [])"
| "truthy (JDate t) = True"
| "truthy (JObj ps) = True"
| "truthy (JBuiltin k) = True"

fun typeof :: "jsval \<Rightarrow> string" where
  "typeof JUndefined = ''undefined''"
| "typeof JNull = ''object''"
| "typeof (JBool b) = ''boolean''"
| "typeof (JNum n) = ''number''"
| "typeof (JStr s) = ''string''"
| "typeof (JDate t) = ''object''"
| "typeof (JObj ps) = ''object''"
| "typeof (JBuiltin k) = (if k = ''__proto__'' then ''object'' else ''function'')"

text \<open>
  \<open>v.p\<close> for the property names the code reads off values it does not control
  (\<open>stack\<close>, \<open>message\<close>, \<open>type\<close>, \<open>lastExecuted\<close>): a TypeError on \<open>null\<close> and \<open>undefined\<close>, the property of an
  object, \<open>undefined\<close> on the other primitives, on dates and on the members of
  \<open>Object.prototype\<close>.
\<close>

fun get_prop :: "jsval \<Rightarrow> string \<Rightarrow> js_error + jsval" where
  "get_prop JUndefined p = Inl (JsTypeError (''undefined.'' @ p))"
| "get_prop JNull p = Inl (JsTypeError (''null.'' @ p))"
| "get_prop (JObj ps) p = Inr (obj_get ps p)"
| "get_prop v p = Inr JUndefined"

text \<open>
  \<open>new Date(v)\<close>. A time value beyond 8.64e15 ms in magnitude gives the invalid date.
  \<open>Date.parse\<close> on strings is the engine's and is taken as the parameter \<open>date_parse\<close>.
\<close>

definition time_clip :: "int \<Rightarrow> int option" where
  "time_clip t = (if \<bar>t\<bar> \<le> 8640000000000000 then Some t else None)"

fun new_Date :: "(string \<Rightarrow> int option) \<Rightarrow> jsval \<Rightarrow> jsval" where
  "new_Date date_parse JUndefined = JDate None"
| "new_Date date_parse JNull = JDate (Some 0)"
| "new_Date date_parse (JBool b) = JDate (Some (if b then 1 else 0))"
| "new_Date date_parse (JNum n) = JDate (time_clip n)"
| "new_Date date_parse (JStr s) = JDate (date_parse s)"
| "new_Date date_parse (JDate t) = JDate t"
| "new_Date date_parse (JObj ps) = JDate None"
| "new_Date date_parse (JBuiltin k) = JDate None"

section \<open>The script registry as an ordered object\<close>

text \<open>
  \<open>this.scripts\<close> is an object keyed by script id whose enumeration order the autocomplete
  listener exposes, so it is kept as the list of its entries in enumeration order. Keys that
  are array indices (canonical decimal numerals below \<open>2^32 - 1\<close>) enumerate first, in
  ascending order; the other keys follow in insertion order.
\<close>

type_synonym registry = "(string \<times> obj) list"

definition is_digit :: "char \<Rightarrow> bool" where
  "is_digit c = (48 \<le> (of_char c :: nat) \<and> (of_char c :: nat) \<le> 57)"

definition dec_value :: "string \<Rightarrow> nat" where
  "dec_value s = foldl (\<lambda>n c. 10 * n + (of_char c - 48)) 0 s"

definition array_index :: "string \<Rightarrow> nat option" where
  "array_index s =
     (if s = [] \<or> \<not> list_all is_digit s \<or> (length s > 1 \<and> hd s = CHR ''0'') then None
      else if dec_value s < 4294967295 then Some (dec_value s) else None)"

definition key_before :: "string \<Rightarrow> string \<Rightarrow> bool" where
  "key_before k k' =
     (case array_index k of
        None \<Rightarrow> False
      | Some i \<Rightarrow> (case array_index k' of None \<Rightarrow> True | Some j \<Rightarrow> i < j))"

fun prop_insert :: "string \<Rightarrow> 'v \<Rightarrow> (string \<times> 'v) list \<Rightarrow> (string \<times> 'v) list" where
  "prop_insert k v [] = [(k, v)]"
| "prop_insert k v ((k', v') # ps) =
     (if key_before k k' then (k, v) # (k', v') # ps else (k', v') # prop_insert k v ps)"

fun prop_replace :: "string \<Rightarrow> 'v \<Rightarrow> (string \<times> 'v) list \<Rightarrow> (string \<times> 'v) list" where
  "prop_replace k v [] = []"
| "prop_replace k v ((k', v') # ps) =
     (if k' = k then (k, v) # ps else (k', v') # prop_replace k v ps)"

text \<open>\<open>o[k] = v\<close>: an existing key keeps its place, a new one is inserted.\<close>

definition prop_set :: "(string \<times> 'v) list \<Rightarrow> string \<Rightarrow> 'v \<Rightarrow> (string \<times> 'v) list" where
  "prop_set ps k v =
     (case map_of ps k of None \<Rightarrow> prop_insert k v ps | Some _ \<Rightarrow> prop_replace k v ps)"

section \<open>Dictionaries are plain objects\<close>

text \<open>
  \<open>this.scripts\<close>, \<open>this.tokens\<close> and \<open>this.tokensInstances\<close> are plain objects, and the code
  reads them with \<open>o[id]\<close> and no test for an own property. Under the name of a member of
  \<open>Object.prototype\<close> such a read finds the inherited member, which is truthy, where the
  object has no property of its own.
\<close>

definition object_prototype_names :: "string list" where
  "object_prototype_names =
     [''constructor'', ''__defineGetter__'', ''__defineSetter__'', ''hasOwnProperty'',
      ''__lookupGetter__'', ''__lookupSetter__'', ''isPrototypeOf'', ''propertyIsEnumerable'',
      ''toString'', ''valueOf'', ''__proto__'', ''toLocaleString'']"

text \<open>\<open>Object.prototype[k]\<close>\<close>

definition object_member :: "string \<Rightarrow> jsval" where
  "object_member k = (if k \<in> set object_prototype_names then JBuiltin k else JUndefined)"

text \<open>
  \<open>{ ...v }\<close>: the own enumerable properties of \<open>v\<close>. A string spreads into its characters
  under their indices; the other primitives, dates and the members of \<open>Object.prototype\<close>
  have none.
\<close>

fun spread_value :: "jsval \<Rightarrow> obj" where
  "spread_value (JObj ps) = ps"
| "spread_value (JStr s) =
     (\<lambda>k. case array_index k of
            None \<Rightarrow> None
          | Some i \<Rightarrow> if i < length s then Some (JStr [s ! i]) else None)"
| "spread_value v = Map.empty"

text \<open>
  What \<open>o[k]\<close> finds in a dictionary \<open>o\<close> whose prototype is \<open>Object.prototype\<close>: the own
  property, an inherited member, or nothing.
\<close>

datatype 'a member = Own 'a | Inherited | Missing

definition dict_read :: "(string \<Rightarrow> 'a option) \<Rightarrow> string \<Rightarrow> 'a member" where
  "dict_read m k =
     (case m k of
        Some v \<Rightarrow> Own v
      | None \<Rightarrow> if k \<in> set object_prototype_names then Inherited else Missing)"

section \<open>Application state\<close>

record token_entry =
  tk_type :: jsval
  tk_value :: jsval

datatype token_handle = TokenHandle string

datatype flow_call =
    CreateToken string jsval jsval      \<comment> \<open>\<open>homey.flow.createToken(id, {type, value, title: id})\<close>\<close>
  | Unregister token_handle             \<comment> \<open>\<open>handle.unregister()\<close>\<close>
  | SetValue token_handle jsval         \<comment> \<open>\<open>handle.setValue(value)\<close>\<close>

datatype logline =
    ScriptSuccess            \<comment> \<open>the success marker\<close>
  | Returned jsval           \<comment> \<open>\<open>'Returned:', JSON.stringify(result, false, 2)\<close>\<close>
  | ScriptError              \<comment> \<open>the failure marker\<close>
  | ErrorStack jsval         \<comment> \<open>the warning sign and \<open>err.stack\<close>\<close>
  | DeprecatedSetTagValue    \<comment> \<open>\<open>'Warning: setTagValue(id, opts, value) is deprecated, ...'\<close>\<close>

datatype event =
    AppLog string                \<comment> \<open>\<open>this.log(text)\<close>\<close>
  | RunLog jsval logline         \<comment> \<open>\<open>this.log(`[${name}]`, ...props)\<close>\<close>
  | Realtime jsval logline       \<comment> \<open>\<open>homey.api.realtime('log', {text, script: id})\<close>\<close>
  | AppError jsval               \<comment> \<open>\<open>this.error(err)\<close>\<close>
  | Flow flow_call               \<comment> \<open>a call into the automation system\<close>
  | BuiltinWrite string string jsval
      \<comment> \<open>a property written onto the member of \<open>Object.prototype\<close> of the first name\<close>
  | ApiCreated nat               \<comment> \<open>\<open>new HomeyAPI(...)\<close>\<close>
  | ApiDestroyed nat             \<comment> \<open>\<open>homeyAPI.destroy()\<close>\<close>

text \<open>
  The fields of the application object that the modelled methods touch, the three settings
  keys they persist to (\<open>None\<close>: the key was never set), the host-API handles that are alive,
  and the trace of calls made to the host. \<open>scripts\<close> holds the own properties of
  \<open>this.scripts\<close>, which are what the settings store serialises. \<open>scripts_proto\<close> is the
  prototype of \<open>this.scripts\<close>: \<open>None\<close> while it is \<open>Object.prototype\<close>, and the plain object
  that has replaced it once an assignment to \<open>this.scripts['__proto__']\<close> has reached the
  setter that \<open>Object.prototype\<close> has under that name.
\<close>

record app =
  scripts :: registry
  scripts_proto :: "obj option"
  migrations :: "jsval list"
  tokens :: "string \<Rightarrow> token_entry option"
  tokensInstances :: "string \<Rightarrow> token_handle option"
  stored_scripts :: "registry option"
  stored_migrations :: "jsval list option"
  stored_tokens :: "(string \<Rightarrow> token_entry option) option"
  api_count :: nat
  apis :: "nat set"
  trace :: "event list"

definition emit :: "event list \<Rightarrow> app \<Rightarrow> app" where
  "emit es st = st\<lparr>trace := trace st @ es\<rparr>"

section \<open>ScriptStore\<close>

text \<open>
  \<open>this.scripts[k]\<close>: the own entry; failing that, the property of the replaced prototype,
  which under \<open>__proto__\<close> is that prototype itself unless it has such a property of its
  own; failing that, the member of \<open>Object.prototype\<close>.
\<close>

definition scripts_lookup :: "app \<Rightarrow> string \<Rightarrow> jsval" where
  "scripts_lookup st k =
     (case map_of (scripts st) k of
        Some script \<Rightarrow> JObj script
      | None \<Rightarrow>
          (case scripts_proto st of
             None \<Rightarrow> object_member k
           | Some p \<Rightarrow>
               (case p k of
                  Some v \<Rightarrow> v
                | None \<Rightarrow> if k = ''__proto__'' then JObj p else object_member k)))"

text \<open>
  \<open>this.scripts[k] = x\<close> for a plain object \<open>x\<close>. The assignment sets or creates an own
  property, except under \<open>__proto__\<close> where neither \<open>this.scripts\<close> nor its replaced prototype
  has a property of that name: there it reaches the setter of \<open>Object.prototype\<close>, which makes
  \<open>x\<close> the prototype of \<open>this.scripts\<close> and creates no property.
\<close>

definition proto_setter_applies :: "app \<Rightarrow> string \<Rightarrow> bool" where
  "proto_setter_applies st k =
     (k = ''__proto__'' \<and> map_of (scripts st) k = None \<and>
      (case scripts_proto st of None \<Rightarrow> True | Some p \<Rightarrow> p k = None))"

definition scripts_assign :: "app \<Rightarrow> string \<Rightarrow> obj \<Rightarrow> app" where
  "scripts_assign st k x =
     (if proto_setter_applies st k then st\<lparr>scripts_proto := Some x\<rparr>
      else st\<lparr>scripts := prop_set (scripts st) k x\<rparr>)"

text \<open>\<open>this.homey.settings.set('scripts', this.scripts)\<close>\<close>

definition persist_scripts :: "app \<Rightarrow> app" where
  "persist_scripts st = st\<lparr>stored_scripts := Some (scripts st)\<rparr>"

text \<open>
  \<open>getScript({ id })\<close>, identical in both versions of the source. Whatever truthy value the
  lookup finds is spread into the result.
\<close>

definition getScript :: "(string \<Rightarrow> int option) \<Rightarrow> app \<Rightarrow> string \<Rightarrow> js_error + obj" where
  "getScript date_parse st sid =
     (let script = scripts_lookup st sid in
      if \<not> truthy script then Inl ScriptNotFound
      else (case get_prop script ''lastExecuted'' of
              Inl e \<Rightarrow> Inl e
            | Inr lastExecuted \<Rightarrow>
                Inr ((spread_value script)(''lastExecuted'' \<mapsto> new_Date date_parse lastExecuted))))"

text \<open>
  \<open>createScript({ name, code })\<close> of app.js; \<open>uuid_v4\<close> is the id that \<open>uuid.v4()\<close> returns, a
  string of hexadecimal digits and hyphens and so never \<open>__proto__\<close>: the assignment sets or
  creates an own entry.
\<close>

definition createScript :: "string \<Rightarrow> app \<Rightarrow> jsval \<Rightarrow> jsval \<Rightarrow> obj \<times> app" where
  "createScript uuid_v4 st name code =
     (let newScript = [''id'' \<mapsto> JStr uuid_v4, ''name'' \<mapsto> name, ''code'' \<mapsto> code,
                       ''lastExecuted'' \<mapsto> JNull];
          scripts' = prop_set (scripts st) uuid_v4 newScript
      in (newScript, st\<lparr>scripts := scripts', stored_scripts := Some scripts'\<rparr>))"

text \<open>\<open>createScriptV2({ script })\<close> of the other version; \<open>uuid\<close> is what \<open>uuid()\<close> returns.\<close>

definition createScriptV2 :: "string \<Rightarrow> app \<Rightarrow> obj \<Rightarrow> obj \<times> app" where
  "createScriptV2 uuid st script =
     (let newScript = [''id'' \<mapsto> JStr uuid, ''name'' \<mapsto> obj_get script ''name'',
                       ''code'' \<mapsto> obj_get script ''code'', ''lastExecuted'' \<mapsto> JNull];
          scripts' = prop_set (scripts st) uuid newScript
      in (newScript, st\<lparr>scripts := scripts', stored_scripts := Some scripts'\<rparr>))"

text \<open>\<open>if (v != null) o[k] = v\<close>\<close>

definition set_unless_nullish :: "string \<Rightarrow> jsval \<Rightarrow> obj \<Rightarrow> obj" where
  "set_unless_nullish k v ps = (if is_nullish v then ps else ps(k \<mapsto> v))"

text \<open>
  \<open>updateScript({ id, name, code, lastExecuted })\<close> of app.js. A field that the caller leaves
  out arrives as \<open>JUndefined\<close>. The copy \<open>{ ...this.scripts[id] }\<close> is assigned first and
  then given the fields; it is also what \<open>this.scripts[id]\<close> yields at the end, as an own
  entry or as the new prototype.
\<close>

definition updateScript :: "app \<Rightarrow> string \<Rightarrow> jsval \<Rightarrow> jsval \<Rightarrow> jsval \<Rightarrow> obj \<times> app" where
  "updateScript st sid name code lastExecuted =
     (let script = set_unless_nullish ''lastExecuted'' lastExecuted
                     (set_unless_nullish ''code'' code
                       (set_unless_nullish ''name'' name (spread_value (scripts_lookup st sid))))
      in (script, persist_scripts (scripts_assign st sid script)))"

text \<open>
  \<open>updateScriptV2({ id, script })\<close>: \<open>{ ...this.scripts[id], ...script, id: id }\<close>. It returns
  \<open>this.scripts[id]\<close>, which is the merged object, except after the setter when the merged
  object has a property \<open>__proto__\<close> of its own: then it is the value of that property. Where
  that value is not an object the result type cannot hold it, and the merged object stands
  for it.
\<close>

definition updateScriptV2 :: "app \<Rightarrow> string \<Rightarrow> obj \<Rightarrow> obj \<times> app" where
  "updateScriptV2 st sid script =
     (let merged = (spread_value (scripts_lookup st sid) ++ script)(''id'' \<mapsto> JStr sid);
          st' = persist_scripts (scripts_assign st sid merged)
      in ((case scripts_lookup st' sid of JObj found \<Rightarrow> found | _ \<Rightarrow> merged), st'))"



subsection \<open>Migration of entries without a name\<close>

text \<open>
  app.js, \<open>onInit\<close>, the block "Migration: Add missing `name` property". The loop mutates the
  entries in place and remembers in \<open>anyScriptChanged\<close> whether it wrote anything.
\<close>

fun migrate_names :: "registry \<Rightarrow> bool \<Rightarrow> registry \<times> bool" where
  "migrate_names [] anyScriptChanged = ([], anyScriptChanged)"
| "migrate_names ((scriptId, script) # rest) anyScriptChanged =
     (if typeof (obj_get script ''name'') \<noteq> ''string''
      then (case migrate_names rest True of
              (rest', changed) \<Rightarrow>
                ((scriptId, script(''name'' \<mapsto> JStr scriptId, ''id'' \<mapsto> JStr scriptId)) # rest',
                 changed))
      else (case migrate_names rest anyScriptChanged of
              (rest', changed) \<Rightarrow> ((scriptId, script) # rest', changed)))"

definition onInit_migration :: "app \<Rightarrow> app" where
  "onInit_migration st =
     (case migrate_names (scripts st) False of
        (scripts', anyScriptChanged) \<Rightarrow>
          if anyScriptChanged then st\<lparr>scripts := scripts', stored_scripts := Some scripts'\<rparr>
          else st\<lparr>scripts := scripts'\<rparr>)"

text \<open>
  The other version: "migration 0", guarded by \<open>this.migrations[0] == null\<close>. It builds
  \<open>nextScripts\<close> entry by entry, \<open>{ ...script, id: scriptId, name: scriptId }\<close>, and records
  \<open>{ done: true }\<close> as marker 0. \<open>nextScripts\<close> starts as a fresh \<open>{}\<close>, whose prototype is
  \<open>Object.prototype\<close>.
\<close>

definition migration_pending :: "jsval list \<Rightarrow> bool" where
  "migration_pending ms = (case ms of [] \<Rightarrow> True | m # _ \<Rightarrow> is_nullish m)"

definition mark_done :: "jsval list \<Rightarrow> jsval list" where
  "mark_done ms = JObj [''done'' \<mapsto> JBool True] # tl ms"

fun next_scripts :: "registry \<Rightarrow> registry \<Rightarrow> registry" where
  "next_scripts nextScripts [] = nextScripts"
| "next_scripts nextScripts ((scriptId, script) # rest) =
     next_scripts
       (prop_set nextScripts scriptId (script(''id'' \<mapsto> JStr scriptId, ''name'' \<mapsto> JStr scriptId)))
       rest"

definition onInit_migration_part0 :: "app \<Rightarrow> app" where
  "onInit_migration_part0 st =
     (if migration_pending (migrations st)
      then (let nextScripts = next_scripts [] (scripts st);
                ms = mark_done (migrations st)
            in emit [AppLog ''Running migration 0'']
                 (st\<lparr>scripts := nextScripts, scripts_proto := None,
                     stored_scripts := Some nextScripts,
                     migrations := ms, stored_migrations := Some ms\<rparr>))
      else st)"

section \<open>AutocompleteIndex\<close>

text \<open>\<open>s.includes(q)\<close> on strings.\<close>

fun starts_with :: "string \<Rightarrow> string \<Rightarrow> bool" where
  "starts_with s [] = True"
| "starts_with [] (c # q) = False"
| "starts_with (a # s) (c # q) = (a = c \<and> starts_with s q)"

fun str_includes :: "string \<Rightarrow> string \<Rightarrow> bool" where
  "str_includes [] q = (q = [])"
| "str_includes (a # s) q = (starts_with (a # s) q \<or> str_includes s q)"

record suggestion =
  sg_id :: jsval
  sg_name :: jsval

text \<open>
  The filter callback of app.js, \<open>script.name.toLowerCase().includes(query.toLowerCase())\<close>.
  \<open>toLowerCase\<close> is the engine's Unicode lower-casing, a parameter here. On a name that is
  not a string the call raises a TypeError, which aborts the whole \<open>filter\<close>.
\<close>

definition name_matches :: "(string \<Rightarrow> string) \<Rightarrow> string \<Rightarrow> obj \<Rightarrow> js_error + bool" where
  "name_matches toLowerCase query script =
     (case obj_get script ''name'' of
        JStr n \<Rightarrow> Inr (str_includes (toLowerCase n) (toLowerCase query))
      | _ \<Rightarrow> Inl (JsTypeError ''script.name.toLowerCase''))"

fun filter_scripts :: "(string \<Rightarrow> string) \<Rightarrow> string \<Rightarrow> obj list \<Rightarrow> js_error + obj list" where
  "filter_scripts toLowerCase query [] = Inr []"
| "filter_scripts toLowerCase query (script # rest) =
     (case name_matches toLowerCase query script of
        Inl e \<Rightarrow> Inl e
      | Inr keep \<Rightarrow>
          (case filter_scripts toLowerCase query rest of
             Inl e \<Rightarrow> Inl e
           | Inr found \<Rightarrow> Inr (if keep then script # found else found)))"

definition onFlowGetScriptAutocomplete ::
  "(string \<Rightarrow> string) \<Rightarrow> app \<Rightarrow> string \<Rightarrow> js_error + suggestion list" where
  "onFlowGetScriptAutocomplete toLowerCase st query =
     (case filter_scripts toLowerCase query (map snd (scripts st)) of
        Inl e \<Rightarrow> Inl e
      | Inr found \<Rightarrow>
          Inr (map (\<lambda>script. \<lparr>sg_id = obj_get script ''id'', sg_name = obj_get script ''name''\<rparr>)
                 found))"

text \<open>The other version filters the registry keys and reports each key as id and as name.\<close>

definition onFlowGetScriptAutocomplete_part0 ::
  "(string \<Rightarrow> string) \<Rightarrow> app \<Rightarrow> string \<Rightarrow> suggestion list" where
  "onFlowGetScriptAutocomplete_part0 toLowerCase st query =
     map (\<lambda>k. \<lparr>sg_id = JStr k, sg_name = JStr k\<rparr>)
       (filter (\<lambda>k. str_includes (toLowerCase k) (toLowerCase query)) (map fst (scripts st)))"

section \<open>TokenRegistry\<close>

text \<open>
  The automation system is a collaborator: \<open>flow c\<close> tells whether the call \<open>c\<close> rejects
  (\<open>Some err\<close>) or resolves (\<open>None\<close>).
\<close>

type_synonym flow_host = "flow_call \<Rightarrow> jsval option"

text \<open>\<open>await this.tokensInstances[id].unregister().catch(this.error)\<close>\<close>

definition unregister_logged :: "flow_host \<Rightarrow> token_handle \<Rightarrow> app \<Rightarrow> app" where
  "unregister_logged flow h st =
     (case flow (Unregister h) of
        None \<Rightarrow> emit [Flow (Unregister h)] st
      | Some err \<Rightarrow> emit [Flow (Unregister h), AppError err] st)"

text \<open>
  \<open>setToken({ id, value, type = typeof value })\<close>, the same in both versions. The default
  of \<open>type\<close> applies when the caller passes \<open>undefined\<close>. Under the name of a member of
  \<open>Object.prototype\<close>, with no handle of its own there, \<open>this.tokensInstances[id]\<close> is that
  member: it is truthy and has neither \<open>unregister\<close> nor \<open>setValue\<close>, so the call raises a
  TypeError, in the delete branch before anything is deleted, otherwise in the update
  branch, the create branch being skipped. Likewise \<open>this.tokens[id]\<close> is truthy there:
  the delete branch then deletes and persists, and the update branch writes \<open>value\<close> onto
  the member.
\<close>

definition setToken ::
  "flow_host \<Rightarrow> app \<Rightarrow> string \<Rightarrow> jsval \<Rightarrow> jsval \<Rightarrow> (js_error + unit) \<times> app" where
  "setToken flow st tid value type_arg =
     (let ty = (if type_arg = JUndefined then JStr (typeof value) else type_arg) in
      if typeof value = ''undefined'' \<or> value = JNull then
        (case dict_read (tokensInstances st) tid of
           Inherited \<Rightarrow> (Inl (JsTypeError ''this.tokensInstances[id].unregister''), st)
         | found \<Rightarrow>
             (let st1 = (case found of Own h \<Rightarrow> unregister_logged flow h st | _ \<Rightarrow> st);
                  st2 = (case dict_read (tokens st1) tid of
                           Missing \<Rightarrow> st1
                         | _ \<Rightarrow>
                             (let tokens' = (tokens st1)(tid := None)
                              in st1\<lparr>tokens := tokens',
                                     tokensInstances := (tokensInstances st1)(tid := None),
                                     stored_tokens := Some tokens'\<rparr>))
              in (Inr (), st2)))
      else
        (case dict_read (tokensInstances st) tid of
           Missing \<Rightarrow>
             (let st1 = emit [Flow (CreateToken tid ty value)] st in
              case flow (CreateToken tid ty value) of
                Some err \<Rightarrow> (Inl (Rejection err), st1)
              | None \<Rightarrow>
                  (let tokens' = (tokens st1)(tid \<mapsto> \<lparr>tk_type = ty, tk_value = value\<rparr>)
                   in (Inr (),
                       st1\<lparr>tokensInstances := (tokensInstances st1)(tid \<mapsto> TokenHandle tid),
                           tokens := tokens', stored_tokens := Some tokens'\<rparr>)))
         | Inherited \<Rightarrow> (Inl (JsTypeError ''this.tokensInstances[id].setValue''), st)
         | Own h \<Rightarrow>
             (let st1 = emit [Flow (SetValue h value)] st in
              case flow (SetValue h value) of
                Some err \<Rightarrow> (Inl (Rejection err), st1)
              | None \<Rightarrow>
                  (case dict_read (tokens st1) tid of
                     Missing \<Rightarrow> (Inl (JsTypeError ''this.tokens[id].value''), st1)
                   | Inherited \<Rightarrow>
                       (Inr (),
                        emit [BuiltinWrite tid ''value'' value]
                          (st1\<lparr>stored_tokens := Some (tokens st1)\<rparr>))
                   | Own entry \<Rightarrow>
                       (let tokens' = (tokens st1)(tid \<mapsto> entry\<lparr>tk_value := value\<rparr>)
                        in (Inr (), st1\<lparr>tokens := tokens', stored_tokens := Some tokens'\<rparr>))))))"

text \<open>What \<open>this.homey.settings.get('tokens') || {}\<close> reads back.\<close>

definition persisted_tokens :: "app \<Rightarrow> string \<Rightarrow> token_entry option" where
  "persisted_tokens st = (case stored_tokens st of None \<Rightarrow> Map.empty | Some m \<Rightarrow> m)"

text \<open>
  The state that start-up establishes and every \<open>setToken\<close> keeps: a handle only where
  there is an entry, and the persisted entries equal to the ones in memory.
\<close>

definition tokens_consistent :: "app \<Rightarrow> bool" where
  "tokens_consistent st =
     (dom (tokensInstances st) \<subseteq> dom (tokens st) \<and> persisted_tokens st = tokens st)"

section \<open>ExecutionEngine\<close>

definition RUN_TIMEOUT :: nat where
  "RUN_TIMEOUT = 1000 * 30"

text \<open>
  What compiling and running the wrapped code does is the sandbox's business and a
  parameter of the model: given the code, the timeout handed to
  \<open>runInNewContext\<close> and the application state, it yields one of four outcomes and the state
  that the script's calls into its capabilities have left.
\<close>

datatype sandbox_outcome =
    CompileError jsval     \<comment> \<open>\<open>new vm.Script(...)\<close> throws\<close>
  | TimedOut jsval         \<comment> \<open>\<open>runInNewContext\<close> throws once the timeout has passed\<close>
  | Rejected jsval         \<comment> \<open>the promise rejects: the script threw, or a capability failed\<close>
  | Fulfilled jsval        \<comment> \<open>the promise resolves with the script's return value\<close>

type_synonym sandbox = "jsval \<Rightarrow> nat \<Rightarrow> app \<Rightarrow> sandbox_outcome \<times> app"

text \<open>\<open>getHomeyAPI()\<close> constructs a new handle on every call; \<open>destroy()\<close> releases one.\<close>

definition getHomeyAPI :: "app \<Rightarrow> nat \<times> app" where
  "getHomeyAPI st =
     (api_count st,
      emit [ApiCreated (api_count st)]
        (st\<lparr>api_count := Suc (api_count st), apis := insert (api_count st) (apis st)\<rparr>))"

definition destroy :: "nat \<Rightarrow> app \<Rightarrow> app" where
  "destroy h st = emit [ApiDestroyed h] (st\<lparr>apis := apis st - {h}\<rparr>)"

text \<open>The logger of a run: always the application log, and the realtime channel on demand.\<close>

definition log :: "jsval \<Rightarrow> jsval \<Rightarrow> bool \<Rightarrow> logline \<Rightarrow> app \<Rightarrow> app" where
  "log name sid realtime line st =
     emit (RunLog name line # (if realtime then [Realtime sid line] else [])) st"

text \<open>The capabilities \<open>tag\<close> and \<open>setTagValue\<close> of the context, the same in both versions.\<close>

definition tag :: "flow_host \<Rightarrow> app \<Rightarrow> string \<Rightarrow> jsval \<Rightarrow> (js_error + unit) \<times> app" where
  "tag flow st tid value = setToken flow st tid value JUndefined"

definition setTagValue ::
  "flow_host \<Rightarrow> (logline \<Rightarrow> app \<Rightarrow> app) \<Rightarrow> app \<Rightarrow> string \<Rightarrow> jsval \<Rightarrow> jsval \<Rightarrow>
   (js_error + unit) \<times> app" where
  "setTagValue flow lg st tid opts value =
     (let st1 = lg DeprecatedSetTagValue st in
      case get_prop opts ''type'' of
        Inl e \<Rightarrow> (Inl e, st1)
      | Inr ty \<Rightarrow> setToken flow st1 tid value ty)"

text \<open>\<open>lastExecuted.getTime()\<close>: only a \<open>Date\<close> has the method.\<close>

definition getTime :: "jsval \<Rightarrow> js_error + int option" where
  "getTime v = (case v of JDate t \<Rightarrow> Inr t | _ \<Rightarrow> Inl (JsTypeError ''lastExecuted.getTime''))"

text \<open>
  The message of \<open>new Error(m)\<close>: empty for \<open>undefined\<close>, otherwise \<open>m\<close> converted to a
  string. The conversion of a value that is not a string is the engine's, a parameter.
\<close>

definition error_message :: "(jsval \<Rightarrow> string) \<Rightarrow> jsval \<Rightarrow> string" where
  "error_message to_string m =
     (case m of JUndefined \<Rightarrow> [] | JStr s \<Rightarrow> s | _ \<Rightarrow> to_string m)"

text \<open>
  The \<open>catch\<close> block of app.js: two log lines, then a fresh \<open>Error\<close> that takes the message
  and, by \<open>error.stack = err.stack\<close>, the stack of what was caught. Reading \<open>err.stack\<close> off
  \<open>null\<close> or \<open>undefined\<close> raises a TypeError from inside the block.
\<close>

definition catch_block ::
  "(jsval \<Rightarrow> string) \<Rightarrow> (logline \<Rightarrow> app \<Rightarrow> app) \<Rightarrow> jsval \<Rightarrow> app \<Rightarrow> js_error \<times> app" where
  "catch_block to_string lg err st =
     (let st1 = lg ScriptError st in
      case get_prop err ''stack'' of
        Inl e \<Rightarrow> (e, st1)
      | Inr stack \<Rightarrow>
          (let st2 = lg (ErrorStack stack) st1 in
           case get_prop err ''message'' of
             Inl e \<Rightarrow> (e, st2)
           | Inr m \<Rightarrow> (JsError (error_message to_string m) stack, st2)))"

text \<open>
  The \<open>catch\<close> block of the other version ends in \<open>error.stack = error.stack\<close>: the fresh
  \<open>Error\<close> keeps the trace that the engine captured when it was constructed, \<open>captured\<close>.
\<close>

definition catch_block_part0 ::
  "(jsval \<Rightarrow> string) \<Rightarrow> string \<Rightarrow> (logline \<Rightarrow> app \<Rightarrow> app) \<Rightarrow> jsval \<Rightarrow> app \<Rightarrow> js_error \<times> app" where
  "catch_block_part0 to_string captured lg err st =
     (let st1 = lg ScriptError st in
      case get_prop err ''stack'' of
        Inl e \<Rightarrow> (e, st1)
      | Inr stack \<Rightarrow>
          (let st2 = lg (ErrorStack stack) st1 in
           case get_prop err ''message'' of
             Inl e \<Rightarrow> (e, st2)
           | Inr m \<Rightarrow> (JsError (error_message to_string m) (JStr captured), st2)))"

text \<open>The arguments of \<open>runScript\<close> in app.js; \<open>ra_realtime\<close> defaults to \<open>true\<close>.\<close>

record run_args =
  ra_id :: jsval
  ra_name :: jsval
  ra_code :: jsval
  ra_lastExecuted :: jsval
  ra_realtime :: jsval

definition realtime_flag :: "jsval \<Rightarrow> bool" where
  "realtime_flag realtime = (if realtime = JUndefined then True else truthy realtime)"

text \<open>
  \<open>runScript\<close> of app.js. The handle is acquired and the context is built before the \<open>try\<close>;
  building the context calls \<open>lastExecuted.getTime()\<close>. \<open>now\<close> is the clock reading of
  \<open>new Date()\<close>. The \<open>finally\<close> block destroys the handle after the \<open>try\<close> and after the
  \<open>catch\<close>, also when the \<open>catch\<close> block itself raises. \<open>JSON.stringify\<close> of the result raises
  only on values outside the model (cycles, big integers), so the success path has no
  failing branch here.
\<close>

definition runScript ::
  "sandbox \<Rightarrow> int \<Rightarrow> (jsval \<Rightarrow> string) \<Rightarrow> app \<Rightarrow> run_args \<Rightarrow> (js_error + jsval) \<times> app" where
  "runScript vm now to_string st ra =
     (let lastExecuted = (if is_nullish (ra_lastExecuted ra) then JDate (time_clip now)
                          else ra_lastExecuted ra);
          lg = log (ra_name ra) (ra_id ra) (realtime_flag (ra_realtime ra))
      in case getHomeyAPI st of
           (homeyAPI, st1) \<Rightarrow>
             (case getTime lastExecuted of
                Inl e \<Rightarrow> (Inl e, st1)
              | Inr _ \<Rightarrow>
                  (case vm (ra_code ra) RUN_TIMEOUT st1 of
                     (Fulfilled result, st2) \<Rightarrow>
                       (Inr result, destroy homeyAPI (lg (Returned result) (lg ScriptSuccess st2)))
                   | (CompileError err, st2) \<Rightarrow>
                       (case catch_block to_string lg err st2 of
                          (error, st3) \<Rightarrow> (Inl error, destroy homeyAPI st3))
                   | (TimedOut err, st2) \<Rightarrow>
                       (case catch_block to_string lg err st2 of
                          (error, st3) \<Rightarrow> (Inl error, destroy homeyAPI st3))
                   | (Rejected err, st2) \<Rightarrow>
                       (case catch_block to_string lg err st2 of
                          (error, st3) \<Rightarrow> (Inl error, destroy homeyAPI st3)))))"

text \<open>
  \<open>runScript\<close> of the other version takes the script object, or none for ad-hoc code.
  After \<open>runInNewContext\<close> has returned, so not after a compile error or a timeout, it
  stamps \<open>lastExecuted\<close> on the script object it was given and, unless the run is ad hoc,
  persists the registry. The object it was given is the copy that \<open>getScript\<close> made, so the
  stamp does not reach the registry and only the persisting shows in the state.
\<close>

record run_args_part0 =
  rp_code :: jsval
  rp_script :: "obj option"
  rp_realtime :: jsval

definition void_script :: "int \<Rightarrow> obj" where
  "void_script now =
     [''id'' \<mapsto> JStr ''__void__'', ''lastExecuted'' \<mapsto> JDate (time_clip now),
      ''name'' \<mapsto> JStr ''Test'']"

definition persist_unless_void :: "obj \<Rightarrow> app \<Rightarrow> app" where
  "persist_unless_void script st =
     (if obj_get script ''id'' \<noteq> JStr ''__void__'' then st\<lparr>stored_scripts := Some (scripts st)\<rparr>
      else st)"

definition runScript_part0 ::
  "sandbox \<Rightarrow> int \<Rightarrow> (jsval \<Rightarrow> string) \<Rightarrow> string \<Rightarrow> app \<Rightarrow> run_args_part0 \<Rightarrow>
   (js_error + jsval) \<times> app" where
  "runScript_part0 vm now to_string captured st rp =
     (let script = (case rp_script rp of None \<Rightarrow> void_script now | Some s \<Rightarrow> s);
          lg = log (obj_get script ''name'') (obj_get script ''id'') (realtime_flag (rp_realtime rp));
          code = (if truthy (rp_code rp) then rp_code rp else obj_get script ''code'')
      in case getHomeyAPI st of
           (homeyAPI, st1) \<Rightarrow>
             (case getTime (obj_get script ''lastExecuted'') of
                Inl e \<Rightarrow> (Inl e, st1)
              | Inr _ \<Rightarrow>
                  (case vm code RUN_TIMEOUT st1 of
                     (Fulfilled result, st2) \<Rightarrow>
                       (Inr result,
                        destroy homeyAPI
                          (lg (Returned result) (lg ScriptSuccess (persist_unless_void script st2))))
                   | (CompileError err, st2) \<Rightarrow>
                       (case catch_block_part0 to_string captured lg err st2 of
                          (error, st3) \<Rightarrow> (Inl error, destroy homeyAPI st3))
                   | (TimedOut err, st2) \<Rightarrow>
                       (case catch_block_part0 to_string captured lg err st2 of
                          (error, st3) \<Rightarrow> (Inl error, destroy homeyAPI st3))
                   | (Rejected err, st2) \<Rightarrow>
                       (case catch_block_part0 to_string captured lg err
                               (persist_unless_void script st2) of
                          (error, st3) \<Rightarrow> (Inl error, destroy homeyAPI st3)))))"

section \<open>Concrete states for evaluation\<close>

definition empty_app :: app where
  "empty_app =
     \<lparr>scripts = [], scripts_proto = None, migrations = [], tokens = Map.empty,
      tokensInstances = Map.empty,
      stored_scripts = None, stored_migrations = None, stored_tokens = None,
      api_count = 0, apis = {}, trace = []\<rparr>"

definition lights :: obj where
  "lights = [''id'' \<mapsto> JStr ''k1'', ''name'' \<mapsto> JStr ''Lights'', ''code'' \<mapsto> JStr ''return 1'',
             ''lastExecuted'' \<mapsto> JNull]"

definition one_script_app :: app where
  "one_script_app =
     empty_app\<lparr>scripts := [(''k1'', lights)], stored_scripts := Some [(''k1'', lights)]\<rparr>"

text \<open>The field \<open>k\<close> of the definition that \<open>getScript\<close> returned, or its error.\<close>

definition result_field :: "string \<Rightarrow> js_error + obj \<Rightarrow> js_error + jsval" where
  "result_field k r = (case r of Inl e \<Rightarrow> Inl e | Inr script \<Rightarrow> Inr (obj_get script k))"

definition no_dates :: "string \<Rightarrow> int option" where
  "no_dates s = None"

definition legacy :: obj where
  "legacy = [''code'' \<mapsto> JStr ''return 3'', ''lastExecuted'' \<mapsto> JNull]"

definition two_script_app :: app where
  "two_script_app = empty_app\<lparr>scripts := [(''old'', legacy), (''k1'', lights)]\<rparr>"

text \<open>What app.js writes into an entry whose name is not a string.\<close>

definition backfilled :: "string \<Rightarrow> obj \<Rightarrow> obj" where
  "backfilled k script =
     (if typeof (obj_get script ''name'') = ''string'' then script
      else script(''name'' \<mapsto> JStr k, ''id'' \<mapsto> JStr k))"

text \<open>
  The specification's "contains the query as a case-insensitive substring": after
  lower-casing both, the query occurs somewhere in the text.
\<close>

definition contains_ci :: "(string \<Rightarrow> string) \<Rightarrow> string \<Rightarrow> string \<Rightarrow> bool" where
  "contains_ci toLowerCase text query =
     (\<exists>before after. toLowerCase text = before @ toLowerCase query @ after)"

text \<open>Lower-casing of the ASCII letters, to evaluate the listeners on concrete input.\<close>

definition ascii_lower :: "string \<Rightarrow> string" where
  "ascii_lower s =
     map (\<lambda>c. if 65 \<le> (of_char c :: nat) \<and> (of_char c :: nat) \<le> 90
               then char_of (of_char c + 32 :: nat) else c) s"

definition night_light :: obj where
  "night_light = [''id'' \<mapsto> JStr ''k2'', ''name'' \<mapsto> JStr ''Night LIGHT'',
                  ''code'' \<mapsto> JStr ''return 4'', ''lastExecuted'' \<mapsto> JNull]"

definition heating :: obj where
  "heating = [''id'' \<mapsto> JStr ''k3'', ''name'' \<mapsto> JStr ''Heating'',
              ''code'' \<mapsto> JStr ''return 5'', ''lastExecuted'' \<mapsto> JNull]"

definition three_script_app :: app where
  "three_script_app =
     empty_app\<lparr>scripts := [(''k2'', night_light), (''k3'', heating), (''k1'', lights)]\<rparr>"

text \<open>An automation system in which every call resolves, and one that refuses to unregister.\<close>

definition flow_ok :: flow_host where
  "flow_ok c = None"

definition flow_keeps_tokens :: flow_host where
  "flow_keeps_tokens c = (case c of Unregister h \<Rightarrow> Some (JStr ''not registered'') | _ \<Rightarrow> None)"

definition token_app :: app where
  "token_app =
     empty_app\<lparr>tokens := [''tok'' \<mapsto> \<lparr>tk_type = JStr ''number'', tk_value = JNum 1\<rparr>],
               tokensInstances := [''tok'' \<mapsto> TokenHandle ''tok''],
               stored_tokens := Some [''tok'' \<mapsto> \<lparr>tk_type = JStr ''number'', tk_value = JNum 1\<rparr>]\<rparr>"

text \<open>The value that a failed run hands to the \<open>catch\<close> block.\<close>

fun failure_of :: "sandbox_outcome \<Rightarrow> jsval option" where
  "failure_of (CompileError err) = Some err"
| "failure_of (TimedOut err) = Some err"
| "failure_of (Rejected err) = Some err"
| "failure_of (Fulfilled result) = None"

text \<open>
  A script that throws an error of the sandbox, one that never returns, and the arguments
  of two runs: the stored script \<open>lights\<close> in app.js, ad-hoc code in the other version.
\<close>

definition boom :: jsval where
  "boom = JObj [''message'' \<mapsto> JStr ''boom'', ''stack'' \<mapsto> JStr ''Error: boom at Test.js:1:7'']"

definition throwing_vm :: sandbox where
  "throwing_vm code timeout st = (Rejected boom, st)"



definition plain_to_string :: "jsval \<Rightarrow> string" where
  "plain_to_string v = ''[object Object]''"

definition lights_run :: run_args where
  "lights_run =
     \<lparr>ra_id = JStr ''k1'', ra_name = JStr ''Lights'', ra_code = JStr ''return 1'',
      ra_lastExecuted = JDate (Some 0), ra_realtime = JBool False\<rparr>"

definition adhoc_run :: run_args_part0 where
  "adhoc_run = \<lparr>rp_code = JStr ''return 1'', rp_script = None, rp_realtime = JBool False\<rparr>"




section \<open>Properties of the object operations\<close>

lemma map_of_prop_insert:
  "map_of ps k = None \<Longrightarrow> map_of (prop_insert k v ps) = (map_of ps)(k \<mapsto> v)"
proof (induction ps)
  case Nil
  then show ?case by simp
next
  case (Cons p ps)
  obtain k' v' where p: "p = (k', v')" by (cases p)
  from Cons.prems p have ne: "k \<noteq> k'" and absent: "map_of ps k = None"
    by (auto split: if_splits)
  show ?case
  proof (cases "key_before k k'")
    case True
    then show ?thesis using p by (simp add: fun_eq_iff)
  next
    case False
    then show ?thesis using p ne Cons.IH [OF absent] by (simp add: fun_eq_iff)
  qed
qed

lemma map_of_prop_replace:
  "map_of ps k = Some w \<Longrightarrow> map_of (prop_replace k v ps) = (map_of ps)(k \<mapsto> v)"
proof (induction ps)
  case Nil
  then show ?case by simp
next
  case (Cons p ps)
  obtain k' v' where p: "p = (k', v')" by (cases p)
  show ?case
  proof (cases "k' = k")
    case True
    then show ?thesis using p by (simp add: fun_eq_iff)
  next
    case False
    with Cons.prems p have "map_of ps k = Some w" by simp
    from Cons.IH [OF this] show ?thesis using p False by (simp add: fun_eq_iff)
  qed
qed

lemma map_of_prop_set: "map_of (prop_set ps k v) = (map_of ps)(k \<mapsto> v)"
  by (cases "map_of ps k") (simp_all add: prop_set_def map_of_prop_insert map_of_prop_replace)

section \<open>ScriptStore: create, then get\<close>

lemma scripts_createScript:
  "map_of (scripts (snd (createScript uuid st name code))) uuid =
     Some [''id'' \<mapsto> JStr uuid, ''name'' \<mapsto> name, ''code'' \<mapsto> code, ''lastExecuted'' \<mapsto> JNull]"
  by (simp add: createScript_def Let_def map_of_prop_set)

text \<open>
  Claim C2, as the code has it. For every name and code, \<open>getScript\<close> on the id that
  \<open>createScript\<close> returned finds a definition with that name and that code. Its
  \<open>lastExecuted\<close> is not \<open>null\<close>: \<open>getScript\<close> always answers with \<open>new Date(script.lastExecuted)\<close>,
  which for the stored \<open>null\<close> is the date with time value 0. It is the definition that
  \<open>createScript\<close> returns, and the entry it stores and persists, whose \<open>lastExecuted\<close> is
  \<open>null\<close>.
\<close>

theorem getScript_createScript:
  "(case createScript uuid st name code of
      (newScript, st') \<Rightarrow>
        result_field ''name'' (getScript date_parse st' uuid) = Inr name \<and>
        result_field ''code'' (getScript date_parse st' uuid) = Inr code \<and>
        result_field ''lastExecuted'' (getScript date_parse st' uuid) = Inr (JDate (Some 0)) \<and>
        result_field ''id'' (getScript date_parse st' uuid) = Inr (JStr uuid) \<and>
        obj_get newScript ''lastExecuted'' = JNull \<and>
        map_of (scripts st') uuid = Some newScript \<and>
        stored_scripts st' = Some (scripts st'))"
  by (simp add: createScript_def Let_def getScript_def scripts_lookup_def map_of_prop_set
      result_field_def obj_get_def)

theorem getScript_createScript_witness:
  "(case createScript ''u-1'' one_script_app (JStr ''Heating'') (JStr ''return 2'') of
      (newScript, st') \<Rightarrow>
        result_field ''name'' (getScript no_dates st' ''u-1'') = Inr (JStr ''Heating'') \<and>
        result_field ''code'' (getScript no_dates st' ''u-1'') = Inr (JStr ''return 2'') \<and>
        result_field ''lastExecuted'' (getScript no_dates st' ''u-1'') = Inr (JDate (Some 0)) \<and>
        result_field ''id'' (getScript no_dates st' ''u-1'') = Inr (JStr ''u-1'') \<and>
        obj_get newScript ''lastExecuted'' = JNull \<and>
        map_of (scripts st') ''u-1'' = Some newScript \<and>
        stored_scripts st' = Some (scripts st'))"
  by (rule getScript_createScript
      [where uuid = "''u-1''" and st = one_script_app and name = "JStr ''Heating''"
         and code = "JStr ''return 2''" and date_parse = no_dates])

theorem getScript_createScript_lastExecuted_counterexample:
  "result_field ''lastExecuted''
     (getScript no_dates
        (snd (createScript ''u-1'' empty_app (JStr ''Heating'') (JStr ''return 2''))) ''u-1'')
   \<noteq> Inr JNull"
  by (simp add: getScript_def scripts_lookup_def Let_def scripts_createScript result_field_def
      obj_get_def)

section \<open>ScriptStore: lookups and assignments in the registry\<close>

lemma scripts_lookup_own:
  "map_of (scripts st) sid = Some script \<Longrightarrow> scripts_lookup st sid = JObj script"
  by (simp add: scripts_lookup_def)

lemma scripts_assign_own:
  "map_of (scripts st) sid = Some script \<Longrightarrow>
   scripts_assign st sid x = st\<lparr>scripts := prop_set (scripts st) sid x\<rparr>"
  by (simp add: scripts_assign_def proto_setter_applies_def)



lemma updateScript_fields:
  "fst (updateScript st sid name code lastExecuted) k =
     (if k = ''lastExecuted'' \<and> \<not> is_nullish lastExecuted then Some lastExecuted
      else if k = ''code'' \<and> \<not> is_nullish code then Some code
      else if k = ''name'' \<and> \<not> is_nullish name then Some name
      else spread_value (scripts_lookup st sid) k)"
  by (simp add: updateScript_def Let_def set_unless_nullish_def)

lemma updateScript_registry:
  assumes "map_of (scripts st) sid = Some old"
  shows "map_of (scripts (snd (updateScript st sid name code lastExecuted))) =
           (map_of (scripts st))(sid \<mapsto> fst (updateScript st sid name code lastExecuted)) \<and>
         stored_scripts (snd (updateScript st sid name code lastExecuted)) =
           Some (scripts (snd (updateScript st sid name code lastExecuted)))"
  by (simp add: updateScript_def Let_def scripts_assign_own [OF assms] persist_scripts_def
      map_of_prop_set)

section \<open>ScriptStore: update of an unknown id\<close>





section \<open>ScriptStore: update of an existing entry\<close>

lemma updateScriptV2_registry:
  assumes "map_of (scripts st) sid = Some old"
  shows "map_of (scripts (snd (updateScriptV2 st sid partial))) =
           (map_of (scripts st))
             (sid \<mapsto> (spread_value (scripts_lookup st sid) ++ partial)(''id'' \<mapsto> JStr sid)) \<and>
         stored_scripts (snd (updateScriptV2 st sid partial)) =
           Some (scripts (snd (updateScriptV2 st sid partial)))"
  by (simp add: updateScriptV2_def Let_def scripts_assign_own [OF assms] persist_scripts_def
      map_of_prop_set)

lemma updateScriptV2_returns_merged:
  assumes "map_of (scripts st) sid = Some old"
  shows "fst (updateScriptV2 st sid partial) =
           (spread_value (scripts_lookup st sid) ++ partial)(''id'' \<mapsto> JStr sid)"
  by (simp add: updateScriptV2_def Let_def scripts_assign_own [OF assms] persist_scripts_def
      scripts_lookup_def map_of_prop_set)

lemma updateScriptV2_fields:
  assumes "map_of (scripts st) sid = Some old"
  shows "fst (updateScriptV2 st sid partial) k =
     (if k = ''id'' then Some (JStr sid)
      else case partial k of None \<Rightarrow> spread_value (scripts_lookup st sid) k | Some v \<Rightarrow> Some v)"
  by (simp add: updateScriptV2_returns_merged [OF assms] map_add_def)

text \<open>
  Claim C6, as the code has it. For an id that the registry holds, \<open>updateScript\<close> of app.js
  changes exactly those of \<open>name\<close>, \<open>code\<close> and \<open>lastExecuted\<close> that were passed with a value
  other than \<open>null\<close> and \<open>undefined\<close>, and leaves every other field as it was; with nothing
  passed the entry is unchanged. \<open>updateScriptV2\<close> overwrites every field that the given
  object has, whatever its value, \<open>null\<close> included, sets \<open>id\<close> to the registry key, and leaves
  the other fields as they were.
\<close>

theorem update_existing_changes_given_fields:
  assumes "map_of (scripts st) sid = Some old"
  shows "(case updateScript st sid name code lastExecuted of
            (script, st') \<Rightarrow>
              map_of (scripts st') = (map_of (scripts st))(sid \<mapsto> script) \<and>
              script ''name'' = (if is_nullish name then old ''name'' else Some name) \<and>
              script ''code'' = (if is_nullish code then old ''code'' else Some code) \<and>
              script ''lastExecuted'' =
                (if is_nullish lastExecuted then old ''lastExecuted'' else Some lastExecuted) \<and>
              (\<forall>k. k \<notin> {''name'', ''code'', ''lastExecuted''} \<longrightarrow> script k = old k)) \<and>
         fst (updateScript st sid JUndefined JUndefined JUndefined) = old \<and>
         (case updateScriptV2 st sid partial of
            (script, st') \<Rightarrow>
              map_of (scripts st') = (map_of (scripts st))(sid \<mapsto> script) \<and>
              script ''id'' = Some (JStr sid) \<and>
              (\<forall>k. k \<noteq> ''id'' \<longrightarrow>
                 script k = (case partial k of None \<Rightarrow> old k | Some v \<Rightarrow> Some v)))"
proof -
  have e: "spread_value (scripts_lookup st sid) = old"
    using assms by (simp add: scripts_lookup_def)
  have a: "case updateScript st sid name code lastExecuted of
            (script, st') \<Rightarrow>
              map_of (scripts st') = (map_of (scripts st))(sid \<mapsto> script) \<and>
              script ''name'' = (if is_nullish name then old ''name'' else Some name) \<and>
              script ''code'' = (if is_nullish code then old ''code'' else Some code) \<and>
              script ''lastExecuted'' =
                (if is_nullish lastExecuted then old ''lastExecuted'' else Some lastExecuted) \<and>
              (\<forall>k. k \<notin> {''name'', ''code'', ''lastExecuted''} \<longrightarrow> script k = old k)"
    using updateScript_registry [OF assms, of name code lastExecuted]
    by (simp add: split_def updateScript_fields e)
  have b: "fst (updateScript st sid JUndefined JUndefined JUndefined) = old"
    by (rule ext) (simp add: updateScript_fields e is_nullish_def)
  have c: "case updateScriptV2 st sid partial of
            (script, st') \<Rightarrow>
              map_of (scripts st') = (map_of (scripts st))(sid \<mapsto> script) \<and>
              script ''id'' = Some (JStr sid) \<and>
              (\<forall>k. k \<noteq> ''id'' \<longrightarrow>
                 script k = (case partial k of None \<Rightarrow> old k | Some v \<Rightarrow> Some v))"
    using updateScriptV2_registry [OF assms, of partial] updateScriptV2_returns_merged [OF assms, of partial]
    by (simp add: split_def e map_add_def split: option.split)
  from a b c show ?thesis by (intro conjI)
qed

theorem update_existing_changes_given_fields_witness:
  "map_of (scripts one_script_app) ''k1'' = Some lights \<and>
   (case updateScript one_script_app ''k1'' JUndefined (JStr ''return 2'') JUndefined of
      (script, st') \<Rightarrow>
        map_of (scripts st') ''k1'' = Some script \<and>
        script ''name'' = Some (JStr ''Lights'') \<and>
        script ''id'' = Some (JStr ''k1'') \<and>
        script ''code'' = Some (JStr ''return 2'') \<and>
        script ''lastExecuted'' = Some JNull) \<and>
   fst (updateScript one_script_app ''k1'' JUndefined JUndefined JUndefined) = lights \<and>
   (case updateScriptV2 one_script_app ''k1'' [''code'' \<mapsto> JStr ''return 2''] of
      (script, st') \<Rightarrow>
        map_of (scripts st') ''k1'' = Some script \<and>
        script ''name'' = Some (JStr ''Lights'') \<and>
        script ''id'' = Some (JStr ''k1'') \<and>
        script ''code'' = Some (JStr ''return 2''))"
proof -
  have h: "map_of (scripts one_script_app) ''k1'' = Some lights"
    by (simp add: one_script_app_def empty_app_def)
  show ?thesis
    using h update_existing_changes_given_fields [OF h,
        where name = JUndefined and code = "JStr ''return 2''" and lastExecuted = JUndefined
          and partial = "[''code'' \<mapsto> JStr ''return 2'']"]
    by (simp add: split_def is_nullish_def lights_def)
qed

theorem updateScriptV2_null_field_counterexample:
  "map_of (scripts one_script_app) ''k1'' = Some lights \<and>
   lights ''name'' = Some (JStr ''Lights'') \<and>
   fst (updateScriptV2 one_script_app ''k1'' [''name'' \<mapsto> JNull]) ''name'' = Some JNull"
proof -
  have h: "map_of (scripts one_script_app) ''k1'' = Some lights"
    by (simp add: one_script_app_def empty_app_def)
  show ?thesis
    using h by (simp add: updateScriptV2_fields [OF h] lights_def scripts_lookup_def)
qed

section \<open>ScriptStore: the name migration\<close>

lemma migrate_names_eq:
  "migrate_names r b =
     (map (\<lambda>(k, script). (k, backfilled k script)) r,
      b \<or> list_ex (\<lambda>(k, script). typeof (obj_get script ''name'') \<noteq> ''string'') r)"
  by (induction r arbitrary: b) (auto simp: backfilled_def)

lemma backfilled_named: "typeof (obj_get (backfilled k script) ''name'') = ''string''"
  by (simp add: backfilled_def obj_get_def)

lemma backfilled_twice: "backfilled k (backfilled k script) = backfilled k script"
  using backfilled_named [of k script] by (simp add: backfilled_def [of k "backfilled k script"])

lemma map_of_backfilled:
  "map_of (map (\<lambda>(k, script). (k, backfilled k script)) r) k = map_option (backfilled k) (map_of r k)"
  by (induction r) auto

lemma onInit_migration_scripts:
  "scripts (onInit_migration st) = map (\<lambda>(k, script). (k, backfilled k script)) (scripts st)"
  by (simp add: onInit_migration_def migrate_names_eq)

lemma onInit_migration_twice: "onInit_migration (onInit_migration st) = onInit_migration st"
proof -
  let ?st1 = "onInit_migration st"
  have same: "map (\<lambda>(k, script). (k, backfilled k script)) (scripts ?st1) = scripts ?st1"
    by (simp add: onInit_migration_scripts backfilled_twice split_def)
  have quiet: "\<not> list_ex (\<lambda>(k, script). typeof (obj_get script ''name'') \<noteq> ''string'') (scripts ?st1)"
    by (simp add: onInit_migration_scripts list_ex_iff backfilled_named split_def)
  have "onInit_migration ?st1 = ?st1\<lparr>scripts := scripts ?st1\<rparr>"
    unfolding onInit_migration_def [of ?st1] migrate_names_eq using same quiet by simp
  then show ?thesis by simp
qed

lemma map_of_next_scripts:
  "distinct (map fst r) \<Longrightarrow>
   map_of (next_scripts acc r) k =
     (case map_of r k of
        None \<Rightarrow> map_of acc k
      | Some script \<Rightarrow> Some (script(''id'' \<mapsto> JStr k, ''name'' \<mapsto> JStr k)))"
proof (induction r arbitrary: acc)
  case Nil
  then show ?case by simp
next
  case (Cons p r)
  obtain k0 s0 where p: "p = (k0, s0)" by (cases p)
  from Cons.prems p have d: "distinct (map fst r)" and fresh: "map_of r k0 = None"
    by (auto simp: map_of_eq_None_iff)
  show ?case
    using Cons.IH [OF d] p fresh by (simp add: map_of_prop_set split: option.split)
qed

lemma part0_not_pending_after: "\<not> migration_pending (migrations (onInit_migration_part0 st))"
  by (simp add: onInit_migration_part0_def Let_def emit_def migration_pending_def mark_done_def
      is_nullish_def)

lemma part0_twice: "onInit_migration_part0 (onInit_migration_part0 st) = onInit_migration_part0 st"
  using part0_not_pending_after [of st]
  by (simp add: onInit_migration_part0_def [of "onInit_migration_part0 st"])

text \<open>
  Claim C5, as the code has it. The migration sets \<open>name\<close> and \<open>id\<close> of an entry to the
  entry's registry key. In app.js it does so on the entries whose \<open>name\<close> is not a string
  and on no others, it keeps the order of the registry, and running it again changes
  nothing. In the other version, while marker 0 is absent, it does so on every entry,
  whatever name or id the entry held; it then records the marker, so that a second run
  finds the marker and changes nothing.
\<close>

theorem migration_sets_name_and_id:
  "(\<forall>k script. map_of (scripts st) k = Some script \<longrightarrow>
      map_of (scripts (onInit_migration st)) k =
        Some (if typeof (obj_get script ''name'') = ''string'' then script
              else script(''name'' \<mapsto> JStr k, ''id'' \<mapsto> JStr k))) \<and>
   map fst (scripts (onInit_migration st)) = map fst (scripts st) \<and>
   onInit_migration (onInit_migration st) = onInit_migration st \<and>
   (migration_pending (migrations st) \<and> distinct (map fst (scripts st)) \<longrightarrow>
      (\<forall>k script. map_of (scripts st) k = Some script \<longrightarrow>
         map_of (scripts (onInit_migration_part0 st)) k =
           Some (script(''id'' \<mapsto> JStr k, ''name'' \<mapsto> JStr k)))) \<and>
   (\<not> migration_pending (migrations st) \<longrightarrow> onInit_migration_part0 st = st) \<and>
   \<not> migration_pending (migrations (onInit_migration_part0 st)) \<and>
   onInit_migration_part0 (onInit_migration_part0 st) = onInit_migration_part0 st"
proof (intro conjI)
  show "\<forall>k script. map_of (scripts st) k = Some script \<longrightarrow>
      map_of (scripts (onInit_migration st)) k =
        Some (if typeof (obj_get script ''name'') = ''string'' then script
              else script(''name'' \<mapsto> JStr k, ''id'' \<mapsto> JStr k))"
  proof (intro allI impI)
    fix k script
    assume "map_of (scripts st) k = Some script"
    then have "map_of (scripts (onInit_migration st)) k = Some (backfilled k script)"
      by (simp add: onInit_migration_scripts map_of_backfilled)
    then show "map_of (scripts (onInit_migration st)) k =
        Some (if typeof (obj_get script ''name'') = ''string'' then script
              else script(''name'' \<mapsto> JStr k, ''id'' \<mapsto> JStr k))"
      by (simp add: backfilled_def)
  qed
  show "map fst (scripts (onInit_migration st)) = map fst (scripts st)"
    by (simp add: onInit_migration_scripts split_def)
  show "onInit_migration (onInit_migration st) = onInit_migration st"
    by (rule onInit_migration_twice)
  show "migration_pending (migrations st) \<and> distinct (map fst (scripts st)) \<longrightarrow>
      (\<forall>k script. map_of (scripts st) k = Some script \<longrightarrow>
         map_of (scripts (onInit_migration_part0 st)) k =
           Some (script(''id'' \<mapsto> JStr k, ''name'' \<mapsto> JStr k)))"
    by (simp add: onInit_migration_part0_def Let_def emit_def map_of_next_scripts)
  show "\<not> migration_pending (migrations st) \<longrightarrow> onInit_migration_part0 st = st"
    by (simp add: onInit_migration_part0_def)
  show "\<not> migration_pending (migrations (onInit_migration_part0 st))"
    by (rule part0_not_pending_after)
  show "onInit_migration_part0 (onInit_migration_part0 st) = onInit_migration_part0 st"
    by (rule part0_twice)
qed

theorem migration_sets_name_and_id_witness:
  "map_of (scripts (onInit_migration two_script_app)) ''old'' =
     Some (legacy(''name'' \<mapsto> JStr ''old'', ''id'' \<mapsto> JStr ''old'')) \<and>
   map_of (scripts (onInit_migration two_script_app)) ''k1'' = Some lights \<and>
   onInit_migration (onInit_migration two_script_app) = onInit_migration two_script_app \<and>
   migration_pending (migrations two_script_app) \<and>
   distinct (map fst (scripts two_script_app)) \<and>
   map_of (scripts (onInit_migration_part0 two_script_app)) ''old'' =
     Some (legacy(''id'' \<mapsto> JStr ''old'', ''name'' \<mapsto> JStr ''old'')) \<and>
   map_of (scripts (onInit_migration_part0 two_script_app)) ''k1'' =
     Some (lights(''id'' \<mapsto> JStr ''k1'', ''name'' \<mapsto> JStr ''k1'')) \<and>
   onInit_migration_part0 (onInit_migration_part0 two_script_app) =
     onInit_migration_part0 two_script_app"
proof -
  have o: "map_of (scripts two_script_app) ''old'' = Some legacy"
    and k: "map_of (scripts two_script_app) ''k1'' = Some lights"
    and p: "migration_pending (migrations two_script_app)"
    and d: "distinct (map fst (scripts two_script_app))"
    by (simp_all add: two_script_app_def empty_app_def migration_pending_def)
  have n: "typeof (obj_get legacy ''name'') \<noteq> ''string''" "typeof (obj_get lights ''name'') = ''string''"
    by (simp_all add: legacy_def lights_def obj_get_def)
  note T = migration_sets_name_and_id [of two_script_app]
  show ?thesis
    using o k p d n T by simp
qed

theorem migration_part0_overwrites_name_counterexample:
  "map_of (scripts one_script_app) ''k1'' = Some lights \<and>
   lights ''name'' = Some (JStr ''Lights'') \<and>
   lights ''id'' = Some (JStr ''k1'') \<and>
   migration_pending (migrations one_script_app) \<and>
   map_option (\<lambda>script. script ''name'') (map_of (scripts (onInit_migration_part0 one_script_app)) ''k1'')
     = Some (Some (JStr ''k1''))"
  by (simp add: one_script_app_def empty_app_def lights_def migration_pending_def
      onInit_migration_part0_def Let_def emit_def map_of_prop_set)

section \<open>AutocompleteIndex: what a search returns\<close>

lemma starts_with_iff: "starts_with s q \<longleftrightarrow> (\<exists>after. s = q @ after)"
  by (induction s q rule: starts_with.induct) auto

lemma str_includes_iff: "str_includes s q \<longleftrightarrow> (\<exists>before after. s = before @ q @ after)"
proof (induction s)
  case Nil
  then show ?case by simp
next
  case (Cons a s)
  show ?case
  proof
    assume "str_includes (a # s) q"
    then consider "starts_with (a # s) q" | "str_includes s q" by auto
    then show "\<exists>before after. a # s = before @ q @ after"
    proof cases
      case 1
      then obtain after where "a # s = q @ after" by (auto simp: starts_with_iff)
      then have "a # s = [] @ q @ after" by simp
      then show ?thesis by blast
    next
      case 2
      with Cons.IH obtain before after where "s = before @ q @ after" by auto
      then have "a # s = (a # before) @ q @ after" by simp
      then show ?thesis by blast
    qed
  next
    assume "\<exists>before after. a # s = before @ q @ after"
    then obtain before after where eq: "a # s = before @ q @ after" by blast
    show "str_includes (a # s) q"
    proof (cases before)
      case Nil
      with eq have "starts_with (a # s) q" by (auto simp: starts_with_iff)
      then show ?thesis by simp
    next
      case (Cons b before')
      with eq have "s = before' @ q @ after" by simp
      with Cons.IH have "str_includes s q" by blast
      then show ?thesis by simp
    qed
  qed
qed

lemma str_includes_contains_ci:
  "str_includes (toLowerCase text) (toLowerCase query) = contains_ci toLowerCase text query"
  by (simp add: str_includes_iff contains_ci_def)

lemma filter_scripts_named:
  "\<forall>script \<in> set ss. \<exists>n. obj_get script ''name'' = JStr n \<Longrightarrow>
   filter_scripts toLowerCase query ss =
     Inr (filter (\<lambda>script. \<exists>n. obj_get script ''name'' = JStr n \<and>
                              contains_ci toLowerCase n query) ss)"
proof (induction ss)
  case Nil
  then show ?case by simp
next
  case (Cons script ss)
  from Cons.prems obtain n where n: "obj_get script ''name'' = JStr n" by auto
  from Cons.prems have "\<forall>script \<in> set ss. \<exists>n. obj_get script ''name'' = JStr n" by simp
  from Cons.IH [OF this] n show ?case
    by (simp add: name_matches_def str_includes_contains_ci)
qed

text \<open>
  Claim C7, as the code has it. In a registry whose scripts all have a string for a name,
  the listener of app.js returns exactly the scripts whose name contains the query as a
  case-insensitive substring, each as its \<open>id\<close> and its \<open>name\<close>, in the registry's enumeration
  order. The listener of the other version never looks at a name: it returns exactly the
  registry keys that contain the query as a case-insensitive substring, each as id and as
  name, in enumeration order.
\<close>

theorem autocomplete_returns_matches_in_order:
  "((\<forall>script \<in> set (map snd (scripts st)). \<exists>n. obj_get script ''name'' = JStr n) \<longrightarrow>
      onFlowGetScriptAutocomplete toLowerCase st query =
        Inr (map (\<lambda>script. \<lparr>sg_id = obj_get script ''id'', sg_name = obj_get script ''name''\<rparr>)
               (filter (\<lambda>script. \<exists>n. obj_get script ''name'' = JStr n \<and>
                                        contains_ci toLowerCase n query)
                  (map snd (scripts st))))) \<and>
   onFlowGetScriptAutocomplete_part0 toLowerCase st query =
     map (\<lambda>k. \<lparr>sg_id = JStr k, sg_name = JStr k\<rparr>)
       (filter (\<lambda>k. contains_ci toLowerCase k query) (map fst (scripts st)))"
proof (intro conjI impI)
  assume "\<forall>script \<in> set (map snd (scripts st)). \<exists>n. obj_get script ''name'' = JStr n"
  from filter_scripts_named [OF this]
  show "onFlowGetScriptAutocomplete toLowerCase st query =
        Inr (map (\<lambda>script. \<lparr>sg_id = obj_get script ''id'', sg_name = obj_get script ''name''\<rparr>)
               (filter (\<lambda>script. \<exists>n. obj_get script ''name'' = JStr n \<and>
                                        contains_ci toLowerCase n query)
                  (map snd (scripts st))))"
    by (simp add: onFlowGetScriptAutocomplete_def)
next
  show "onFlowGetScriptAutocomplete_part0 toLowerCase st query =
     map (\<lambda>k. \<lparr>sg_id = JStr k, sg_name = JStr k\<rparr>)
       (filter (\<lambda>k. contains_ci toLowerCase k query) (map fst (scripts st)))"
    by (simp add: onFlowGetScriptAutocomplete_part0_def str_includes_contains_ci)
qed

lemma ascii_lower_examples:
  "ascii_lower ''Night LIGHT'' = ''night light''"
  "ascii_lower ''Heating'' = ''heating''"
  "ascii_lower ''Lights'' = ''lights''"
  "ascii_lower ''liGht'' = ''light''"
  "ascii_lower ''k1'' = ''k1''"
  "ascii_lower ''k2'' = ''k2''"
  "ascii_lower ''k3'' = ''k3''"
  "ascii_lower ''K3'' = ''k3''"
  by (simp_all add: ascii_lower_def char_of_def bit_0)

theorem autocomplete_returns_matches_in_order_witness:
  "onFlowGetScriptAutocomplete ascii_lower three_script_app ''liGht'' =
     Inr [\<lparr>sg_id = JStr ''k2'', sg_name = JStr ''Night LIGHT''\<rparr>,
          \<lparr>sg_id = JStr ''k1'', sg_name = JStr ''Lights''\<rparr>] \<and>
   onFlowGetScriptAutocomplete_part0 ascii_lower three_script_app ''K3'' =
     [\<lparr>sg_id = JStr ''k3'', sg_name = JStr ''k3''\<rparr>]"
proof -
  have names: "\<forall>script \<in> set (map snd (scripts three_script_app)). \<exists>n. obj_get script ''name'' = JStr n"
    by (simp add: three_script_app_def empty_app_def night_light_def heating_def lights_def
        obj_get_def)
  have ci: "contains_ci ascii_lower t q = str_includes (ascii_lower t) (ascii_lower q)" for t q
    by (simp add: str_includes_contains_ci)
  from autocomplete_returns_matches_in_order [of three_script_app ascii_lower "''liGht''"] names
  have a: "onFlowGetScriptAutocomplete ascii_lower three_script_app ''liGht'' =
        Inr (map (\<lambda>script. \<lparr>sg_id = obj_get script ''id'', sg_name = obj_get script ''name''\<rparr>)
               (filter (\<lambda>script. \<exists>n. obj_get script ''name'' = JStr n \<and>
                                        contains_ci ascii_lower n ''liGht'')
                  (map snd (scripts three_script_app))))"
    by blast
  from autocomplete_returns_matches_in_order [of three_script_app ascii_lower "''K3''"]
  have b: "onFlowGetScriptAutocomplete_part0 ascii_lower three_script_app ''K3'' =
     map (\<lambda>k. \<lparr>sg_id = JStr k, sg_name = JStr k\<rparr>)
       (filter (\<lambda>k. contains_ci ascii_lower k ''K3'') (map fst (scripts three_script_app)))"
    by blast
  have a': "onFlowGetScriptAutocomplete ascii_lower three_script_app ''liGht'' =
     Inr [\<lparr>sg_id = JStr ''k2'', sg_name = JStr ''Night LIGHT''\<rparr>,
          \<lparr>sg_id = JStr ''k1'', sg_name = JStr ''Lights''\<rparr>]"
    unfolding a
    by (simp add: three_script_app_def empty_app_def night_light_def heating_def lights_def
        obj_get_def ci ascii_lower_examples)
  have b': "onFlowGetScriptAutocomplete_part0 ascii_lower three_script_app ''K3'' =
     [\<lparr>sg_id = JStr ''k3'', sg_name = JStr ''k3''\<rparr>]"
    unfolding b
    by (simp add: three_script_app_def empty_app_def ci ascii_lower_examples)
  from a' b' show ?thesis by simp
qed

theorem autocomplete_part0_misses_name_counterexample:
  "map_of (scripts three_script_app) ''k3'' = Some heating \<and>
   name_matches ascii_lower ''heat'' heating = Inr True \<and>
   onFlowGetScriptAutocomplete_part0 ascii_lower three_script_app ''heat'' = []"
  by (simp add: three_script_app_def empty_app_def heating_def name_matches_def obj_get_def
      onFlowGetScriptAutocomplete_part0_def ascii_lower_def char_of_def bit_0)

section \<open>ExecutionEngine: the error that a failed run raises\<close>

lemma catch_block_object:
  "catch_block to_string lg (JObj e) st =
     (JsError (error_message to_string (obj_get e ''message'')) (obj_get e ''stack''),
      lg (ErrorStack (obj_get e ''stack'')) (lg ScriptError st))"
  by (simp add: catch_block_def Let_def)

lemma catch_block_part0_object:
  "catch_block_part0 to_string captured lg (JObj e) st =
     (JsError (error_message to_string (obj_get e ''message'')) (JStr captured),
      lg (ErrorStack (obj_get e ''stack'')) (lg ScriptError st))"
  by (simp add: catch_block_part0_def Let_def)

text \<open>
  app.js: a failed run whose error is an object raises an \<open>Error\<close> with the message and the
  stack of that object.
\<close>

lemma runScript_raises_message_and_stack:
  assumes "getTime (if is_nullish (ra_lastExecuted ra) then JDate (time_clip now)
                    else ra_lastExecuted ra) = Inr t"
    and "vm (ra_code ra) RUN_TIMEOUT (snd (getHomeyAPI st)) = (out, st2)"
    and "failure_of out = Some (JObj e)"
  shows "fst (runScript vm now to_string st ra) =
           Inl (JsError (error_message to_string (obj_get e ''message'')) (obj_get e ''stack''))"
  using assms
  by (cases out) (simp_all add: runScript_def Let_def split_def catch_block_object)

text \<open>
  The other version: the stack of the raised \<open>Error\<close> is the trace captured at its
  construction, whatever stack the error of the sandbox had.
\<close>

lemma runScript_part0_raises_captured_stack:
  assumes "getTime (obj_get (case rp_script rp of None \<Rightarrow> void_script now | Some s \<Rightarrow> s)
                      ''lastExecuted'') = Inr t"
    and "vm (if truthy (rp_code rp) then rp_code rp
             else obj_get (case rp_script rp of None \<Rightarrow> void_script now | Some s \<Rightarrow> s) ''code'')
            RUN_TIMEOUT (snd (getHomeyAPI st)) = (out, st2)"
    and "failure_of out = Some (JObj e)"
  shows "fst (runScript_part0 vm now to_string captured st rp) =
           Inl (JsError (error_message to_string (obj_get e ''message'')) (JStr captured))"
  using assms
  by (cases out) (simp_all add: runScript_part0_def Let_def split_def catch_block_part0_object)

text \<open>
  Claim C1 at a concrete run. The script throws an error of the sandbox with message
  \<open>boom\<close> and a stack that names the script's own frame. app.js raises an \<open>Error\<close> with that
  message and that stack. The other version raises an \<open>Error\<close> with that message and with
  the trace of the host's own \<open>new Error\<close>: its \<open>error.stack = error.stack\<close> assigns the
  fresh error's stack to itself, and the stack of the original error is lost.
\<close>

theorem runScript_part0_loses_original_stack:
  "get_prop boom ''stack'' = Inr (JStr ''Error: boom at Test.js:1:7'') \<and>
   fst (runScript throwing_vm 1000 plain_to_string empty_app lights_run) =
     Inl (JsError ''boom'' (JStr ''Error: boom at Test.js:1:7'')) \<and>
   fst (runScript_part0 throwing_vm 1000 plain_to_string ''Error: boom at runScript (app.js)''
          empty_app adhoc_run) =
     Inl (JsError ''boom'' (JStr ''Error: boom at runScript (app.js)''))"
  by (simp add: boom_def throwing_vm_def lights_run_def adhoc_run_def runScript_def
      runScript_part0_def Let_def getHomeyAPI_def getTime_def is_nullish_def void_script_def
      obj_get_def time_clip_def catch_block_def catch_block_part0_def
      error_message_def)

section \<open>TokenRegistry: a value, then \<open>null\<close>\<close>

lemma dict_read_ordinary:
  "k \<notin> set object_prototype_names \<Longrightarrow>
   dict_read m k = (case m k of None \<Rightarrow> Missing | Some v \<Rightarrow> Own v)"
  by (simp add: dict_read_def split: option.split)

lemma dict_read_inherited:
  "k \<in> set object_prototype_names \<Longrightarrow> m k = None \<Longrightarrow> dict_read m k = Inherited"
  by (simp add: dict_read_def)

lemma nullish_typeof: "is_nullish value \<longleftrightarrow> typeof value = ''undefined'' \<or> value = JNull"
  by (cases "value") (simp_all add: is_nullish_def)

lemma unregister_logged_fields:
  "tokens (unregister_logged flow h st) = tokens st"
  "tokensInstances (unregister_logged flow h st) = tokensInstances st"
  "stored_tokens (unregister_logged flow h st) = stored_tokens st"
  "trace (unregister_logged flow h st) =
     trace st @ Flow (Unregister h) # (case flow (Unregister h) of None \<Rightarrow> [] | Some err \<Rightarrow> [AppError err])"
  by (simp_all add: unregister_logged_def emit_def split: option.split)

lemma setToken_delete:
  assumes n: "is_nullish value" and ord: "tid \<notin> set object_prototype_names"
  shows "setToken flow st tid value ty =
     (Inr (),
      (let st1 = (case tokensInstances st tid of
                    None \<Rightarrow> st
                  | Some h \<Rightarrow> unregister_logged flow h st)
       in case tokens st tid of
            None \<Rightarrow> st1
          | Some entry \<Rightarrow>
              st1\<lparr>tokens := (tokens st)(tid := None),
                  tokensInstances := (tokensInstances st)(tid := None),
                  stored_tokens := Some ((tokens st)(tid := None))\<rparr>))"
proof -
  from n have c: "typeof value = ''undefined'' \<or> value = JNull"
    by (simp add: nullish_typeof)
  show ?thesis
    unfolding setToken_def Let_def using c
    by (cases "tokensInstances st tid"; cases "tokens st tid")
       (simp_all add: unregister_logged_fields dict_read_ordinary [OF ord])
qed

text \<open>
  Under the name of a member of \<open>Object.prototype\<close>, without a handle of its own there,
  every call raises a TypeError and changes nothing.
\<close>

lemma setToken_inherited:
  assumes "k \<in> set object_prototype_names" and "tokensInstances st k = None"
  shows "setToken flow st k value ty =
           (Inl (JsTypeError (if is_nullish value then ''this.tokensInstances[id].unregister''
                              else ''this.tokensInstances[id].setValue'')), st)"
  using assms by (simp add: setToken_def Let_def dict_read_inherited nullish_typeof)

lemma setToken_delete_clears:
  assumes n: "is_nullish value" and c: "tokens_consistent st"
    and ord: "tid \<notin> set object_prototype_names"
  shows "tokens (snd (setToken flow st tid value ty)) tid = None \<and>
         tokensInstances (snd (setToken flow st tid value ty)) tid = None \<and>
         persisted_tokens (snd (setToken flow st tid value ty)) tid = None \<and>
         tokens_consistent (snd (setToken flow st tid value ty))"
proof -
  let ?st1 = "case tokensInstances st tid of None \<Rightarrow> st | Some h \<Rightarrow> unregister_logged flow h st"
  have f: "tokens ?st1 = tokens st" "tokensInstances ?st1 = tokensInstances st"
    "stored_tokens ?st1 = stored_tokens st"
    by (simp_all add: unregister_logged_fields split: option.split)
  from c have sub: "dom (tokensInstances st) \<subseteq> dom (tokens st)"
    and per: "persisted_tokens st = tokens st"
    by (simp_all add: tokens_consistent_def)
  show ?thesis
  proof (cases "tokens st tid")
    case None
    then have s: "snd (setToken flow st tid value ty) = ?st1"
      by (simp add: setToken_delete [OF n ord] Let_def)
    from sub None have i: "tokensInstances st tid = None" by (auto simp: dom_def)
    from per have p1: "persisted_tokens ?st1 = tokens st"
      by (simp add: persisted_tokens_def f)
    show ?thesis
      unfolding s using None i p1 sub by (simp add: f tokens_consistent_def)
  next
    case (Some entry)
    let ?st2 = "?st1\<lparr>tokens := (tokens st)(tid := None),
                  tokensInstances := (tokensInstances st)(tid := None),
                  stored_tokens := Some ((tokens st)(tid := None))\<rparr>"
    from Some have s: "snd (setToken flow st tid value ty) = ?st2"
      by (simp add: setToken_delete [OF n ord] Let_def)
    from sub have "dom ((tokensInstances st)(tid := None)) \<subseteq> dom ((tokens st)(tid := None))"
      by auto
    then show ?thesis
      unfolding s by (simp add: tokens_consistent_def persisted_tokens_def)
  qed
qed


lemma consistent_emit: "tokens_consistent (emit es st) = tokens_consistent st"
  by (simp add: tokens_consistent_def persisted_tokens_def emit_def)

lemma consistent_put:
  assumes "tokens_consistent st" and "i = tokensInstances st \<or> i = (tokensInstances st)(tid \<mapsto> h)"
  shows "tokens_consistent
           (st\<lparr>tokensInstances := i, tokens := (tokens st)(tid \<mapsto> entry),
               stored_tokens := Some ((tokens st)(tid \<mapsto> entry))\<rparr>)"
proof -
  from assms(1) have sub: "\<forall>x y. tokensInstances st x = Some y \<longrightarrow> (\<exists>z. tokens st x = Some z)"
    by (auto simp: tokens_consistent_def)
  from assms(2) sub have "dom i \<subseteq> dom ((tokens st)(tid \<mapsto> entry))"
    by (auto split: if_splits)
  then show ?thesis
    by (simp add: tokens_consistent_def persisted_tokens_def)
qed

lemma setToken_value_consistent:
  assumes v: "\<not> is_nullish value" and c: "tokens_consistent st"
    and ord: "tid \<notin> set object_prototype_names"
  shows "tokens_consistent (snd (setToken flow st tid value ty))"
proof -
  from v have nv: "\<not> (typeof value = ''undefined'' \<or> value = JNull)"
    by (simp add: nullish_typeof)
  define ty' where "ty' = (if ty = JUndefined then JStr (typeof value) else ty)"
  show ?thesis
  proof (cases "tokensInstances st tid")
    case None
    let ?st1 = "emit [Flow (CreateToken tid ty' value)] st"
    have c1: "tokens_consistent ?st1" using c by (simp add: consistent_emit)
    show ?thesis
    proof (cases "flow (CreateToken tid ty' value)")
      case (Some err)
      with None nv have "snd (setToken flow st tid value ty) = ?st1"
        by (simp add: setToken_def Let_def ty'_def dict_read_ordinary [OF ord])
      with c1 show ?thesis by simp
    next
      case flow_ok: None
      with None nv have "snd (setToken flow st tid value ty) =
          ?st1\<lparr>tokensInstances := (tokensInstances ?st1)(tid \<mapsto> TokenHandle tid),
               tokens := (tokens ?st1)(tid \<mapsto> \<lparr>tk_type = ty', tk_value = value\<rparr>),
               stored_tokens := Some ((tokens ?st1)(tid \<mapsto> \<lparr>tk_type = ty', tk_value = value\<rparr>))\<rparr>"
        by (simp add: setToken_def Let_def ty'_def dict_read_ordinary [OF ord])
      with consistent_put [OF c1, of _ tid "TokenHandle tid"] show ?thesis by simp
    qed
  next
    case (Some h)
    let ?st1 = "emit [Flow (SetValue h value)] st"
    have c1: "tokens_consistent ?st1" using c by (simp add: consistent_emit)
    have t1: "tokens ?st1 = tokens st" by (simp add: emit_def)
    show ?thesis
    proof (cases "flow (SetValue h value)")
      case rejected: (Some err)
      with Some nv have "snd (setToken flow st tid value ty) = ?st1"
        by (simp add: setToken_def Let_def dict_read_ordinary [OF ord])
      with c1 show ?thesis by simp
    next
      case resolved: None
      show ?thesis
      proof (cases "tokens st tid")
        case None
        with Some resolved nv t1 have "snd (setToken flow st tid value ty) = ?st1"
          by (simp add: setToken_def Let_def dict_read_ordinary [OF ord])
        with c1 show ?thesis by simp
      next
        case entry: (Some entry)
        with Some resolved nv t1 have "snd (setToken flow st tid value ty) =
            ?st1\<lparr>tokens := (tokens ?st1)(tid \<mapsto> entry\<lparr>tk_value := value\<rparr>),
                 stored_tokens := Some ((tokens ?st1)(tid \<mapsto> entry\<lparr>tk_value := value\<rparr>))\<rparr>"
          by (simp add: setToken_def Let_def dict_read_ordinary [OF ord])
        moreover have "tokens_consistent
            (?st1\<lparr>tokensInstances := tokensInstances ?st1,
                  tokens := (tokens ?st1)(tid \<mapsto> entry\<lparr>tk_value := value\<rparr>),
                  stored_tokens := Some ((tokens ?st1)(tid \<mapsto> entry\<lparr>tk_value := value\<rparr>))\<rparr>)"
          by (rule consistent_put [OF c1]) simp
        ultimately show ?thesis by simp
      qed
    qed
  qed
qed

lemma setToken_consistent:
  "tokens_consistent st \<Longrightarrow> tid \<notin> set object_prototype_names \<Longrightarrow>
   tokens_consistent (snd (setToken flow st tid value ty))"
  by (cases "is_nullish value") (simp_all add: setToken_delete_clears setToken_value_consistent)


text \<open>
  Claim C4, as the code has it. Take an id that is not the name of a member of
  \<open>Object.prototype\<close>, and a state in which every handle has an entry and the persisted
  entries are the ones in memory (start-up builds handles from the persisted entries
  only, and \<open>setToken\<close> keeps the two in step). Then \<open>setToken(id, 5)\<close> followed by
  \<open>setToken(id, null)\<close> leaves no entry for the id, neither in memory nor persisted, and no
  handle, whether the first call succeeded or not. For such an id, in any state, the
  delete branch raises nothing; with a handle present its one call to the automation
  system is \<open>unregister\<close> on that handle, a rejection of which is passed to \<open>this.error\<close>;
  with an entry present it removes entry and handle and persists the map; with no entry
  present it changes neither map and persists nothing.
\<close>

theorem setToken_value_then_null:
  assumes "tokens_consistent st" and "tid \<notin> set object_prototype_names"
  shows "(case setToken flow1 st tid (JNum 5) ty1 of
            (r1, st1) \<Rightarrow>
              (case setToken flow2 st1 tid JNull ty2 of
                 (r2, st2) \<Rightarrow>
                   r2 = Inr () \<and> tokens st2 tid = None \<and> tokensInstances st2 tid = None \<and>
                   persisted_tokens st2 tid = None \<and> tokens_consistent st2)) \<and>
         (\<forall>s value ty. is_nullish value \<longrightarrow>
            (case setToken flow s tid value ty of
               (r, s') \<Rightarrow>
                 r = Inr () \<and>
                 trace s' = trace s @
                   (case tokensInstances s tid of
                      None \<Rightarrow> []
                    | Some h \<Rightarrow>
                        Flow (Unregister h) #
                        (case flow (Unregister h) of None \<Rightarrow> [] | Some err \<Rightarrow> [AppError err])) \<and>
                 (case tokens s tid of
                    None \<Rightarrow>
                      tokens s' = tokens s \<and> tokensInstances s' = tokensInstances s \<and>
                      stored_tokens s' = stored_tokens s
                  | Some entry \<Rightarrow>
                      tokens s' = (tokens s)(tid := None) \<and>
                      tokensInstances s' = (tokensInstances s)(tid := None) \<and>
                      stored_tokens s' = Some (tokens s'))))"
proof -
  note ord = assms(2)
  let ?st1 = "snd (setToken flow1 st tid (JNum 5) ty1)"
  have c1: "tokens_consistent ?st1"
    using assms by (rule setToken_consistent)
  have n: "is_nullish JNull" by (simp add: is_nullish_def)
  have "fst (setToken flow2 ?st1 tid JNull ty2) = Inr ()"
    by (simp add: setToken_delete [OF n ord])
  with setToken_delete_clears [OF n c1 ord, of flow2 ty2]
  have a: "case setToken flow1 st tid (JNum 5) ty1 of
            (r1, st1) \<Rightarrow>
              (case setToken flow2 st1 tid JNull ty2 of
                 (r2, st2) \<Rightarrow>
                   r2 = Inr () \<and> tokens st2 tid = None \<and> tokensInstances st2 tid = None \<and>
                   persisted_tokens st2 tid = None \<and> tokens_consistent st2)"
    by (simp add: split_def)
  have b: "case setToken flow s tid v ty of
               (r, s') \<Rightarrow>
                 r = Inr () \<and>
                 trace s' = trace s @
                   (case tokensInstances s tid of
                      None \<Rightarrow> []
                    | Some h \<Rightarrow>
                        Flow (Unregister h) #
                        (case flow (Unregister h) of None \<Rightarrow> [] | Some err \<Rightarrow> [AppError err])) \<and>
                 (case tokens s tid of
                    None \<Rightarrow>
                      tokens s' = tokens s \<and> tokensInstances s' = tokensInstances s \<and>
                      stored_tokens s' = stored_tokens s
                  | Some entry \<Rightarrow>
                      tokens s' = (tokens s)(tid := None) \<and>
                      tokensInstances s' = (tokensInstances s)(tid := None) \<and>
                      stored_tokens s' = Some (tokens s'))"
    if "is_nullish v" for s v ty
    by (cases "tokensInstances s tid"; cases "tokens s tid")
       (simp_all add: setToken_delete [OF that ord] unregister_logged_fields)
  show ?thesis by (intro conjI allI impI) (rule a, rule b)
qed

lemma token_app_run:
  "setToken flow_keeps_tokens
     (snd (setToken flow_keeps_tokens token_app ''tok'' (JNum 5) JUndefined)) ''tok'' JNull JUndefined =
   (Inr (),
    empty_app\<lparr>stored_tokens := Some Map.empty,
              trace := [Flow (SetValue (TokenHandle ''tok'') (JNum 5)),
                        Flow (Unregister (TokenHandle ''tok'')),
                        AppError (JStr ''not registered'')]\<rparr>)"
  by (simp add: setToken_def Let_def token_app_def empty_app_def flow_keeps_tokens_def
      unregister_logged_def emit_def dict_read_def object_prototype_names_def)

theorem setToken_value_then_null_witness:
  "tokens_consistent token_app \<and>
   (case setToken flow_keeps_tokens token_app ''tok'' (JNum 5) JUndefined of
      (r1, st1) \<Rightarrow>
        (case setToken flow_keeps_tokens st1 ''tok'' JNull JUndefined of
           (r2, st2) \<Rightarrow>
             r2 = Inr () \<and> tokens st2 ''tok'' = None \<and> tokensInstances st2 ''tok'' = None \<and>
             persisted_tokens st2 ''tok'' = None \<and> tokens_consistent st2 \<and>
             trace st2 = [Flow (SetValue (TokenHandle ''tok'') (JNum 5)),
                          Flow (Unregister (TokenHandle ''tok'')),
                          AppError (JStr ''not registered'')]))"
proof -
  have h: "tokens_consistent token_app"
    by (simp add: tokens_consistent_def token_app_def empty_app_def persisted_tokens_def)
  have o: "''tok'' \<notin> set object_prototype_names"
    by (simp add: object_prototype_names_def)
  have t: "trace (snd (setToken flow_keeps_tokens
             (snd (setToken flow_keeps_tokens token_app ''tok'' (JNum 5) JUndefined))
             ''tok'' JNull JUndefined)) =
           [Flow (SetValue (TokenHandle ''tok'') (JNum 5)),
            Flow (Unregister (TokenHandle ''tok'')),
            AppError (JStr ''not registered'')]"
    by (simp add: token_app_run)
  from setToken_value_then_null [OF h o,
      where ?flow1.0 = flow_keeps_tokens and ?ty1.0 = JUndefined
        and ?flow2.0 = flow_keeps_tokens and ?ty2.0 = JUndefined]
  have "case setToken flow_keeps_tokens token_app ''tok'' (JNum 5) JUndefined of
      (r1, st1) \<Rightarrow>
        (case setToken flow_keeps_tokens st1 ''tok'' JNull JUndefined of
           (r2, st2) \<Rightarrow>
             r2 = Inr () \<and> tokens st2 ''tok'' = None \<and> tokensInstances st2 ''tok'' = None \<and>
             persisted_tokens st2 ''tok'' = None \<and> tokens_consistent st2)"
    by (rule conjunct1)
  with h t show ?thesis by (simp add: split_def)
qed

theorem setToken_constructor_counterexample:
  "tokens_consistent empty_app \<and>
   setToken flow_ok empty_app ''constructor'' (JNum 5) JUndefined =
     (Inl (JsTypeError ''this.tokensInstances[id].setValue''), empty_app) \<and>
   setToken flow_ok empty_app ''constructor'' JNull JUndefined =
     (Inl (JsTypeError ''this.tokensInstances[id].unregister''), empty_app)"
  by (simp add: tokens_consistent_def persisted_tokens_def empty_app_def setToken_def Let_def
      dict_read_def object_prototype_names_def)

section \<open>The deprecated capability\<close>

lemma setToken_adds_no_run_log:
  "count_list (trace (snd (setToken flow st tid value ty))) (RunLog name line) =
   count_list (trace st) (RunLog name line)"
proof (cases "is_nullish value")
  case True
  then have c: "typeof value = ''undefined'' \<or> value = JNull"
    by (simp add: nullish_typeof)
  show ?thesis
    using c
    by (cases "dict_read (tokensInstances st) tid"; cases "dict_read (tokens st) tid")
       (simp_all add: setToken_def Let_def unregister_logged_fields)
next
  case False
  then have nv: "\<not> (typeof value = ''undefined'' \<or> value = JNull)"
    by (simp add: nullish_typeof)
  show ?thesis
    using nv
    by (cases "dict_read (tokensInstances st) tid"; cases "dict_read (tokens st) tid")
       (simp_all add: setToken_def Let_def emit_def split: option.split)
qed

lemma setTagValue_count:
  "count_list (trace (snd (setTagValue flow (log name sid realtime) st tid opts value)))
     (RunLog name DeprecatedSetTagValue) =
   Suc (count_list (trace st) (RunLog name DeprecatedSetTagValue))"
  by (cases "get_prop opts ''type''")
     (simp_all add: setTagValue_def Let_def setToken_adds_no_run_log log_def emit_def)

text \<open>
  Claim C8, as the code has it. Every invocation of \<open>setTagValue(id, opts, value)\<close> logs the
  deprecation warning: each call adds exactly one such line to the log; nothing remembers
  that the warning was given before. It then calls \<open>setToken\<close> with the id, the value and
  \<open>opts.type\<close>; where \<open>opts\<close> is \<open>null\<close> or \<open>undefined\<close>, reading \<open>opts.type\<close> raises a TypeError
  after the warning and \<open>setToken\<close> is not called.
\<close>

theorem setTagValue_warns_every_time_then_forwards:
  "count_list (trace (snd (setTagValue flow (log name sid realtime) st tid opts value)))
     (RunLog name DeprecatedSetTagValue) =
   Suc (count_list (trace st) (RunLog name DeprecatedSetTagValue)) \<and>
   (\<forall>ty. get_prop opts ''type'' = Inr ty \<longrightarrow>
      setTagValue flow (log name sid realtime) st tid opts value =
        setToken flow (log name sid realtime DeprecatedSetTagValue st) tid value ty) \<and>
   (\<forall>e. get_prop opts ''type'' = Inl e \<longrightarrow>
      setTagValue flow (log name sid realtime) st tid opts value =
        (Inl e, log name sid realtime DeprecatedSetTagValue st))"
  by (simp add: setTagValue_count) (simp add: setTagValue_def Let_def)

theorem setTagValue_warns_every_time_then_forwards_witness:
  "count_list
     (trace (snd (setTagValue flow_ok (log (JStr ''Test'') (JStr ''__void__'') False) empty_app ''tok''
                    (JObj [''type'' \<mapsto> JStr ''number'']) (JNum 7))))
     (RunLog (JStr ''Test'') DeprecatedSetTagValue) = 1 \<and>
   setTagValue flow_ok (log (JStr ''Test'') (JStr ''__void__'') False) empty_app ''tok''
       (JObj [''type'' \<mapsto> JStr ''number'']) (JNum 7) =
     setToken flow_ok (log (JStr ''Test'') (JStr ''__void__'') False DeprecatedSetTagValue empty_app)
       ''tok'' (JNum 7) (JStr ''number'')"
proof -
  have g: "get_prop (JObj [''type'' \<mapsto> JStr ''number'']) ''type'' = Inr (JStr ''number'')"
    by (simp add: obj_get_def)
  have z: "count_list (trace empty_app) (RunLog (JStr ''Test'') DeprecatedSetTagValue) = 0"
    by (simp add: empty_app_def)
  note T = setTagValue_warns_every_time_then_forwards
        [of flow_ok "JStr ''Test''" "JStr ''__void__''" False empty_app "''tok''"
            "JObj [''type'' \<mapsto> JStr ''number'']" "JNum 7"]
  from T z have a: "count_list
     (trace (snd (setTagValue flow_ok (log (JStr ''Test'') (JStr ''__void__'') False) empty_app ''tok''
                    (JObj [''type'' \<mapsto> JStr ''number'']) (JNum 7))))
     (RunLog (JStr ''Test'') DeprecatedSetTagValue) = 1"
    by (simp only: One_nat_def)
  from T g have b: "setTagValue flow_ok (log (JStr ''Test'') (JStr ''__void__'') False) empty_app ''tok''
       (JObj [''type'' \<mapsto> JStr ''number'']) (JNum 7) =
     setToken flow_ok (log (JStr ''Test'') (JStr ''__void__'') False DeprecatedSetTagValue empty_app)
       ''tok'' (JNum 7) (JStr ''number'')"
    by blast
  from a b show ?thesis by (rule conjI)
qed

theorem setTagValue_warns_twice_counterexample:
  "count_list
     (trace (snd (setTagValue flow_ok (log (JStr ''Test'') (JStr ''__void__'') False)
        (snd (setTagValue flow_ok (log (JStr ''Test'') (JStr ''__void__'') False) empty_app ''tok''
                (JObj [''type'' \<mapsto> JStr ''number'']) (JNum 7)))
        ''tok'' (JObj [''type'' \<mapsto> JStr ''number'']) (JNum 8))))
     (RunLog (JStr ''Test'') DeprecatedSetTagValue) = 2"
  by (simp add: setTagValue_count empty_app_def)

section \<open>ExecutionEngine: release of the host-API handle\<close>

lemma destroy_releases:
  "h \<notin> apis (destroy h st)" "trace (destroy h st) = trace st @ [ApiDestroyed h]"
  by (simp_all add: destroy_def emit_def)

lemma runScript_ends_in_destroy:
  assumes "getTime (if is_nullish (ra_lastExecuted ra) then JDate (time_clip now)
                    else ra_lastExecuted ra) = Inr t"
  shows "\<exists>st3. snd (runScript vm now to_string st ra) = destroy (api_count st) st3"
proof -
  obtain out st2 where v: "vm (ra_code ra) RUN_TIMEOUT (snd (getHomeyAPI st)) = (out, st2)"
    by (cases "vm (ra_code ra) RUN_TIMEOUT (snd (getHomeyAPI st))")
  have h: "fst (getHomeyAPI st) = api_count st" by (simp add: getHomeyAPI_def)
  show ?thesis
    using assms v h
    by (cases out; simp add: runScript_def Let_def split_def; blast)
qed

lemma runScript_part0_ends_in_destroy:
  assumes "getTime (obj_get (case rp_script rp of None \<Rightarrow> void_script now | Some s \<Rightarrow> s)
                      ''lastExecuted'') = Inr t"
  shows "\<exists>st3. snd (runScript_part0 vm now to_string captured st rp) = destroy (api_count st) st3"
proof -
  define code where "code = (if truthy (rp_code rp) then rp_code rp
      else obj_get (case rp_script rp of None \<Rightarrow> void_script now | Some s \<Rightarrow> s) ''code'')"
  obtain out st2 where v: "vm code RUN_TIMEOUT (snd (getHomeyAPI st)) = (out, st2)"
    by (cases "vm code RUN_TIMEOUT (snd (getHomeyAPI st))")
  have h: "fst (getHomeyAPI st) = api_count st" by (simp add: getHomeyAPI_def)
  show ?thesis
    using assms v h
    by (cases out; simp add: runScript_part0_def Let_def split_def code_def; blast)
qed

text \<open>
  Once the context has been built the handle is released on every path: a run whose
  \<open>lastExecuted\<close> is a \<open>Date\<close> (or, in app.js, is absent; or, in the other version, whose script
  is absent) ends by destroying the handle it acquired, whatever the sandbox did: success,
  compile error, timeout or rejection. Every call of \<open>getHomeyAPI\<close> constructs a handle
  different from the one before.
\<close>

lemma runScript_releases_after_context:
  "((is_nullish (ra_lastExecuted ra) \<or> (\<exists>t. ra_lastExecuted ra = JDate t)) \<longrightarrow>
      (case runScript vm now to_string st ra of
         (r, st') \<Rightarrow>
           api_count st \<notin> apis st' \<and> (\<exists>es. trace st' = es @ [ApiDestroyed (api_count st)]))) \<and>
   ((rp_script rp = None \<or>
     (\<exists>script t. rp_script rp = Some script \<and> obj_get script ''lastExecuted'' = JDate t)) \<longrightarrow>
      (case runScript_part0 vm now to_string captured st rp of
         (r, st') \<Rightarrow>
           api_count st \<notin> apis st' \<and> (\<exists>es. trace st' = es @ [ApiDestroyed (api_count st)]))) \<and>
   (case getHomeyAPI st of
      (h, st1) \<Rightarrow> h = api_count st \<and> h \<in> apis st1 \<and> fst (getHomeyAPI st1) \<noteq> h)"
proof (intro conjI impI)
  assume "is_nullish (ra_lastExecuted ra) \<or> (\<exists>t. ra_lastExecuted ra = JDate t)"
  then have "\<exists>t. getTime (if is_nullish (ra_lastExecuted ra) then JDate (time_clip now)
                    else ra_lastExecuted ra) = Inr t"
    by (auto simp: getTime_def)
  then obtain st3 where "snd (runScript vm now to_string st ra) = destroy (api_count st) st3"
    using runScript_ends_in_destroy by blast
  then show "case runScript vm now to_string st ra of
         (r, st') \<Rightarrow>
           api_count st \<notin> apis st' \<and> (\<exists>es. trace st' = es @ [ApiDestroyed (api_count st)])"
    by (simp add: split_def destroy_releases)
next
  assume "rp_script rp = None \<or>
     (\<exists>script t. rp_script rp = Some script \<and> obj_get script ''lastExecuted'' = JDate t)"
  then have "\<exists>t. getTime (obj_get (case rp_script rp of None \<Rightarrow> void_script now | Some s \<Rightarrow> s)
                      ''lastExecuted'') = Inr t"
    by (auto simp: getTime_def void_script_def obj_get_def)
  then obtain st3 where
    "snd (runScript_part0 vm now to_string captured st rp) = destroy (api_count st) st3"
    using runScript_part0_ends_in_destroy by blast
  then show "case runScript_part0 vm now to_string captured st rp of
         (r, st') \<Rightarrow>
           api_count st \<notin> apis st' \<and> (\<exists>es. trace st' = es @ [ApiDestroyed (api_count st)])"
    by (simp add: split_def destroy_releases)
next
  show "case getHomeyAPI st of
      (h, st1) \<Rightarrow> h = api_count st \<and> h \<in> apis st1 \<and> fst (getHomeyAPI st1) \<noteq> h"
    by (simp add: getHomeyAPI_def emit_def)
qed


end
